theory Spec2Isabelle
  imports Complex_Main "HOL-Library.Sublist" "HOL-Library.AList" "HOL-Library.Char_ord" "HOL-Library.List_Lexorder"
begin

section \<open>Python values used by the scripts\<close>

text \<open>
  The scripts are Python. A Python \<open>str\<close> is modelled as a \<^typ>\<open>string\<close> holding its UTF-8
  bytes: every pattern the scripts search for or replace is a whole code point, and UTF-8
  is self-synchronising, so searching, replacing and comparing bytes agree with doing so on
  code points. The order of \<^typ>\<open>string\<close> is the lexicographic order of the bytes, which
  for UTF-8 is the order of the code points that \<open>sorted\<close> uses.
\<close>

datatype py_error = TypeError | AttributeError | KeyError | IndexError | ZeroDivisionError | JSONDecodeError

subsection \<open>\<open>str.strip()\<close>\<close>

text \<open>
  The code points for which \<open>str.isspace()\<close> holds, each as its UTF-8 bytes: U+0009 to
  U+000D, U+001C to U+0020, U+0085, U+00A0, U+1680, U+2000 to U+200A, U+2028, U+2029,
  U+202F, U+205F, U+3000.
\<close>

definition ws_tokens :: "string list" where
  "ws_tokens =
    [[CHR 0x09], [CHR 0x0A], [CHR 0x0B], [CHR 0x0C], [CHR 0x0D],
     [CHR 0x1C], [CHR 0x1D], [CHR 0x1E], [CHR 0x1F], [CHR 0x20],
     [CHR 0xC2, CHR 0x85], [CHR 0xC2, CHR 0xA0], [CHR 0xE1, CHR 0x9A, CHR 0x80],
     [CHR 0xE2, CHR 0x80, CHR 0x80], [CHR 0xE2, CHR 0x80, CHR 0x81],
     [CHR 0xE2, CHR 0x80, CHR 0x82], [CHR 0xE2, CHR 0x80, CHR 0x83],
     [CHR 0xE2, CHR 0x80, CHR 0x84], [CHR 0xE2, CHR 0x80, CHR 0x85],
     [CHR 0xE2, CHR 0x80, CHR 0x86], [CHR 0xE2, CHR 0x80, CHR 0x87],
     [CHR 0xE2, CHR 0x80, CHR 0x88], [CHR 0xE2, CHR 0x80, CHR 0x89],
     [CHR 0xE2, CHR 0x80, CHR 0x8A], [CHR 0xE2, CHR 0x80, CHR 0xA8],
     [CHR 0xE2, CHR 0x80, CHR 0xA9], [CHR 0xE2, CHR 0x80, CHR 0xAF],
     [CHR 0xE2, CHR 0x81, CHR 0x9F], [CHR 0xE3, CHR 0x80, CHR 0x80]]"

definition ws_prefix :: "string \<Rightarrow> string option" where
  "ws_prefix s = find (\<lambda>t. prefix t s) ws_tokens"

definition ws_suffix :: "string \<Rightarrow> string option" where
  "ws_suffix s = find (\<lambda>t. suffix t s) ws_tokens"

function lstrip :: "string \<Rightarrow> string" where
  "lstrip s = (case ws_prefix s of None \<Rightarrow> s | Some t \<Rightarrow> lstrip (drop (length t) s))"
  by pat_completeness auto
termination
proof (relation "measure length")
  fix s t assume "ws_prefix s = Some t"
  then obtain i where "i < length ws_tokens" "prefix (ws_tokens ! i) s" "t = ws_tokens ! i"
    unfolding ws_prefix_def find_Some_iff by blast
  moreover have "\<forall>u \<in> set ws_tokens. u \<noteq> []" by (simp add: ws_tokens_def)
  ultimately have "t \<noteq> []" "prefix t s" by simp_all
  then show "(drop (length t) s, s) \<in> measure length"
    by (auto simp: prefix_def)
qed simp

function rstrip :: "string \<Rightarrow> string" where
  "rstrip s = (case ws_suffix s of None \<Rightarrow> s | Some t \<Rightarrow> rstrip (take (length s - length t) s))"
  by pat_completeness auto
termination
proof (relation "measure length")
  fix s t assume "ws_suffix s = Some t"
  then obtain i where "i < length ws_tokens" "suffix (ws_tokens ! i) s" "t = ws_tokens ! i"
    unfolding ws_suffix_def find_Some_iff by blast
  moreover have "\<forall>u \<in> set ws_tokens. u \<noteq> []" by (simp add: ws_tokens_def)
  ultimately have "t \<noteq> []" "suffix t s" by simp_all
  then show "(take (length s - length t) s, s) \<in> measure length"
    by (auto simp: suffix_def)
qed simp

declare lstrip.simps [simp del] rstrip.simps [simp del]

definition strip :: "string \<Rightarrow> string" where
  "strip s = rstrip (lstrip s)"

subsection \<open>\<open>str.replace(old, new)\<close> and \<open>old in s\<close>\<close>

text \<open>
  \<open>s.replace(old, new)\<close> for a non-empty \<open>old\<close>: the occurrences are taken from left to
  right and do not overlap. \<open>old in s\<close> is \<^term>\<open>sublist old s\<close>.
\<close>

fun replace :: "string \<Rightarrow> string \<Rightarrow> string \<Rightarrow> string" where
  "replace old new [] = []"
| "replace old new (c # cs) =
     (if old \<noteq> [] \<and> prefix old (c # cs)
      then new @ replace old new (drop (length old) (c # cs))
      else c # replace old new cs)"

section \<open>Identifier extraction\<close>

text \<open>
  A cell of the spreadsheet, as the extraction loops see it: \<open>NA\<close> when \<open>pd.notna(value)\<close>
  is false, otherwise \<open>Val s\<close> with \<open>s = str(value)\<close>.
\<close>

datatype cell = NA | Val string

text \<open>
  \<open>check-missing-correct.py\<close>, lines 27 to 32 (the same loop is in
  \<open>mark-non-excel-articles.py\<close>, lines 26 to 31): the body of the loop over the first column,
  and the loop.
\<close>

fun add_article :: "string set \<Rightarrow> cell \<Rightarrow> string set" where
  "add_article excel_articles NA = excel_articles"
| "add_article excel_articles (Val v) =
     (let article_num = strip v
      in if article_num \<noteq> [] \<and> article_num \<noteq> ''nan''
         then insert article_num excel_articles else excel_articles)"

definition extract_excel_articles :: "cell list \<Rightarrow> string set" where
  "extract_excel_articles column = foldl add_article {} column"

text \<open>
  What the script prints after the loop: the number of rows read (line 20) and the number of
  unique identifiers kept (line 34).
\<close>

definition extraction_report :: "cell list \<Rightarrow> nat \<times> nat" where
  "extraction_report column = (length column, card (extract_excel_articles column))"


text \<open>
  The skip total the specification asks the extractor to report: the number of rows whose
  identifier cell is absent, blank after trimming, or the text \<open>nan\<close>. The scripts compute
  no such number; the definition follows the specification, to compare it with what the
  scripts report.
\<close>

fun unusable :: "cell \<Rightarrow> bool" where
  "unusable NA = True"
| "unusable (Val v) = (strip v = [] \<or> strip v = ''nan'')"

definition spec_skipped_rows :: "cell list \<Rightarrow> nat" where
  "spec_skipped_rows column = length (filter unusable column)"

section \<open>Reconciliation\<close>

subsection \<open>\<open>check-missing-correct.py\<close>, lines 81 and 82\<close>

definition missing :: "string set \<Rightarrow> string set \<Rightarrow> string set" where
  "missing excel_articles system_article_numbers = excel_articles - system_article_numbers"

definition found :: "string set \<Rightarrow> string set \<Rightarrow> string set" where
  "found excel_articles system_article_numbers = excel_articles \<inter> system_article_numbers"

subsection \<open>\<open>mark-non-excel-articles.py\<close>, lines 61 to 77\<close>

text \<open>
  A record of the catalog as the API returns it. \<open>articleNumber\<close> is \<open>None\<close> when the
  key is absent from the JSON object, and \<open>Some s\<close> for the string \<open>s\<close>.
\<close>

record sys_article =
  db_id :: nat
  articleNumber :: "string option"
  productName :: string

text \<open>Line 67: \<open>str(article.get('articleNumber', '')).strip()\<close>.\<close>

definition art_num :: "sys_article \<Rightarrow> string" where
  "art_num article = strip (case articleNumber article of None \<Rightarrow> [] | Some s \<Rightarrow> s)"

text \<open>Lines 66 to 71: the loop over the catalog appends each record to one of two lists.\<close>

fun partition_system :: "string set \<Rightarrow> sys_article list \<Rightarrow> sys_article list \<times> sys_article list" where
  "partition_system excel_articles [] = ([], [])"
| "partition_system excel_articles (article # rest) =
     (let (in_both, only_in_system) = partition_system excel_articles rest
      in if art_num article \<in> excel_articles
         then (article # in_both, only_in_system)
         else (in_both, article # only_in_system))"

text \<open>Line 74: \<open>{str(a.get('articleNumber')).strip() for a in all_system_articles}\<close>.\<close>

definition system_numbers :: "sys_article list \<Rightarrow> string set" where
  "system_numbers all_system_articles =
     (\<lambda>a. strip (case articleNumber a of None \<Rightarrow> ''None'' | Some s \<Rightarrow> s)) ` set all_system_articles"

text \<open>
  Lines 75 to 77: the loop over the set \<open>excel_articles\<close>; the list is the order in which
  Python enumerates the set.
\<close>

definition only_in_excel :: "string list \<Rightarrow> string set \<Rightarrow> string list" where
  "only_in_excel excel_articles system_nums = filter (\<lambda>excel_num. excel_num \<notin> system_nums) excel_articles"

section \<open>Coverage\<close>

subsection \<open>The float arithmetic of \<open>len(found) / len(excel_articles) * 100\<close>\<close>

text \<open>
  The quotient of two integers and the product with 100 are binary64 operations: each gives
  the binary64 value nearest to the exact result, ties to the even significand. A binary64
  value is kept as the rational number it is. \<open>round_half_even\<close> rounds to the nearest
  integer, ties to even; \<open>exponent q\<close> is the \<open>e\<close> with \<open>2 ^ e \<le> q < 2 ^ (e + 1)\<close>,
  found by halving or doubling; \<open>binary64 q\<close> rounds \<open>q\<close> to a significand of 53 bits.
  Overflow and subnormal numbers are left out: a quotient of two list lengths reaches neither.
\<close>

definition round_half_even :: "rat \<Rightarrow> int" where
  "round_half_even y =
     (let f = \<lfloor>y\<rfloor>; d = y - of_int f
      in if d < 1 / 2 then f else if 1 / 2 < d then f + 1 else if even f then f else f + 1)"

function halvings :: "rat \<Rightarrow> nat" where
  "halvings q = (if q < 2 then 0 else Suc (halvings (q / 2)))"
  by pat_completeness auto
termination
proof (relation "measure (\<lambda>q. nat \<lfloor>q\<rfloor>)")
  fix q :: rat assume "\<not> q < 2"
  then have "q / 2 \<le> q - 1" by simp
  then have "\<lfloor>q / 2\<rfloor> \<le> \<lfloor>q - 1\<rfloor>" by (rule floor_mono)
  moreover have "2 \<le> \<lfloor>q\<rfloor>" using \<open>\<not> q < 2\<close> by (simp add: le_floor_iff)
  ultimately show "(q / 2, q) \<in> measure (\<lambda>q. nat \<lfloor>q\<rfloor>)" by simp
qed simp

function doublings :: "rat \<Rightarrow> nat" where
  "doublings q = (if q \<le> 0 \<or> 1 \<le> q then 0 else Suc (doublings (q * 2)))"
  by pat_completeness auto
termination
proof (relation "measure (\<lambda>q. nat \<lfloor>1 / q\<rfloor>)")
  fix q :: rat assume "\<not> (q \<le> 0 \<or> 1 \<le> q)"
  then have q: "0 < q" "q < 1" by simp_all
  define y where "y = 1 / q"
  have y: "1 < y" using q by (simp add: y_def)
  then have f: "1 \<le> \<lfloor>y\<rfloor>" by (simp add: le_floor_iff)
  have "y < of_int \<lfloor>y\<rfloor> + 1" by linarith
  moreover from f have "(1::rat) \<le> of_int \<lfloor>y\<rfloor>" by linarith
  ultimately have "y / 2 < of_int \<lfloor>y\<rfloor>" by linarith
  then have l: "\<lfloor>y / 2\<rfloor> < \<lfloor>y\<rfloor>" by (simp only: floor_less_iff)
  have k: "1 / (q * 2) = y / 2" unfolding y_def by simp
  have "nat \<lfloor>y / 2\<rfloor> < nat \<lfloor>y\<rfloor>" using l f by linarith
  then have "nat \<lfloor>1 / (q * 2)\<rfloor> < nat \<lfloor>1 / q\<rfloor>"
    unfolding k unfolding y_def .
  then show "(q * 2, q) \<in> measure (\<lambda>q. nat \<lfloor>1 / q\<rfloor>)"
    by (simp only: in_measure)
qed simp

declare halvings.simps [simp del] doublings.simps [simp del]

definition exponent :: "rat \<Rightarrow> int" where
  "exponent q = (if 1 \<le> q then int (halvings q) else - int (doublings q))"

definition binary64 :: "rat \<Rightarrow> rat" where
  "binary64 q =
     (if q = 0 then 0
      else (let ulp = 2 powi (exponent \<bar>q\<bar> - 52)
            in sgn q * of_int (round_half_even (\<bar>q\<bar> / ulp)) * ulp))"

text \<open>The float value of \<open>a / b * 100\<close> for integers \<open>a\<close> and \<open>b\<close>, \<open>b\<close> not zero.\<close>

definition py_percent :: "nat \<Rightarrow> nat \<Rightarrow> rat" where
  "py_percent a b = binary64 (binary64 (of_nat a / of_nat b) * 100)"

subsection \<open>The format \<open>:.1f\<close>\<close>

text \<open>
  \<open>f"{x:.1f}"\<close> for a float \<open>x\<close> that is not negative: the decimal number with one
  digit after the point that is nearest to \<open>x\<close>, ties to the even digit. \<open>decimal n\<close> are
  the decimal digits of \<open>n\<close>; \<open>one_decimal t\<close> writes \<open>t\<close> tenths.
\<close>

function decimal :: "nat \<Rightarrow> string" where
  "decimal n = (if n < 10 then [char_of (48 + n)] else decimal (n div 10) @ [char_of (48 + n mod 10)])"
  by pat_completeness auto
termination
  by (relation "measure (\<lambda>n. n)") simp_all

declare decimal.simps [simp del]

definition one_decimal :: "nat \<Rightarrow> string" where
  "one_decimal t = decimal (t div 10) @ ''.'' @ decimal (t mod 10)"

definition format_1f :: "rat \<Rightarrow> string" where
  "format_1f x = one_decimal (nat (round_half_even (x * 10)))"

subsection \<open>The coverage of the two scripts\<close>

text \<open>
  \<open>check-missing-correct.py\<close>, line 116:
  \<open>f"{(len(found) / len(excel_articles) * 100):.1f}%"\<close>; the division has no guard.
\<close>

definition coverage_correct :: "string set \<Rightarrow> string set \<Rightarrow> py_error + string" where
  "coverage_correct excel_articles system_article_numbers =
     (if card excel_articles = 0 then Inl ZeroDivisionError
      else Inr (format_1f (py_percent (card (found excel_articles system_article_numbers))
                             (card excel_articles)) @ ''%''))"

text \<open>
  \<open>compare-excel-system.py\<close>, lines 102 to 113: the loop over the keys of the dictionary
  \<open>excel_articles\<close> (a list without duplicates, in insertion order) appends each key to
  \<open>missing_articles\<close> or to \<open>found_articles\<close>.
\<close>

fun compare_articles :: "string list \<Rightarrow> string set \<Rightarrow> string list \<times> string list" where
  "compare_articles [] system_articles = ([], [])"
| "compare_articles (article_number # rest) system_articles =
     (let (missing_articles, found_articles) = compare_articles rest system_articles
      in if article_number \<notin> system_articles
         then (article_number # missing_articles, found_articles)
         else (missing_articles, article_number # found_articles))"

text \<open>
  Line 130: \<open>f"{(len(found_articles) / len(excel_articles) * 100):.1f}%" if excel_articles else "0%"\<close>.
\<close>

definition coverage_compare :: "string list \<Rightarrow> string set \<Rightarrow> string" where
  "coverage_compare excel_articles system_articles =
     (let (missing_articles, found_articles) = compare_articles excel_articles system_articles
      in if excel_articles \<noteq> []
         then format_1f (py_percent (length found_articles) (length excel_articles)) @ ''%''
         else ''0%'')"

section \<open>Python floats\<close>

text \<open>
  A Python \<open>float\<close>: a finite value, an infinity or not-a-number. A finite value is kept
  as the rational number it stands for (every binary64 value is one; rounding to binary64
  is not modelled, and \<open>-0.0\<close> is \<open>0\<close>, which no comparison of the scripts tells apart).
\<close>

datatype pyfloat = Fin rat | PInf | NInf | NaN

text \<open>\<open>x > 0\<close> and \<open>x == y\<close> on floats: every comparison with not-a-number is false.\<close>

fun float_gt0 :: "pyfloat \<Rightarrow> bool" where
  "float_gt0 (Fin q) = (0 < q)"
| "float_gt0 PInf = True"
| "float_gt0 NInf = False"
| "float_gt0 NaN = False"

fun float_eq :: "pyfloat \<Rightarrow> pyfloat \<Rightarrow> bool" where
  "float_eq (Fin p) (Fin q) = (p = q)"
| "float_eq PInf PInf = True"
| "float_eq NInf NInf = True"
| "float_eq _ _ = False"

subsection \<open>The builtin \<open>float(s)\<close> on a string\<close>

text \<open>
  The builtin accepts, between optional white space, an optional sign followed by
  \<open>inf\<close>, \<open>infinity\<close> or \<open>nan\<close> in any case, or by a decimal number: digits with an
  optional point and an optional exponent, where single underscores may stand between
  digits. Everything else raises \<open>ValueError\<close>, which is \<open>None\<close> here. The model reads
  the ASCII digits; the value of a number is its exact decimal value.
\<close>

definition is_digit :: "char \<Rightarrow> bool" where
  "is_digit c = (c \<in> set ''0123456789'')"

definition digit_val :: "char \<Rightarrow> nat" where
  "digit_val c = of_char c - 48"

definition ascii_lower :: "char \<Rightarrow> char" where
  "ascii_lower c = (if c \<in> set ''ABCDEFGHIJKLMNOPQRSTUVWXYZ'' then char_of (of_char c + (32::nat)) else c)"

text \<open>An underscore between two digits is skipped.\<close>

fun skip_underscore :: "string \<Rightarrow> string" where
  "skip_underscore (u # d # cs) = (if u = CHR ''_'' \<and> is_digit d then d # cs else u # d # cs)"
| "skip_underscore cs = cs"

text \<open>The longest leading digit part, without its underscores, and the rest of the text.\<close>

function digitpart :: "string \<Rightarrow> string \<times> string" where
  "digitpart [] = ([], [])"
| "digitpart (c # cs) =
     (if is_digit c
      then (let (ds, rest) = digitpart (skip_underscore cs) in (c # ds, rest))
      else ([], c # cs))"
  by pat_completeness auto
termination
proof (relation "measure length")
  fix c :: char and cs :: string
  have "length (skip_underscore cs) \<le> length cs"
    by (cases cs rule: skip_underscore.cases) auto
  then show "(skip_underscore cs, c # cs) \<in> measure length" by simp
qed simp

definition digits_value :: "string \<Rightarrow> nat" where
  "digits_value ds = foldl (\<lambda>n c. 10 * n + digit_val c) 0 ds"

fun take_sign :: "string \<Rightarrow> bool \<times> string" where
  "take_sign [] = (False, [])"
| "take_sign (c # cs) =
     (if c = CHR ''-'' then (True, cs) else if c = CHR ''+'' then (False, cs) else (False, c # cs))"

definition parse_exponent :: "string \<Rightarrow> rat option" where
  "parse_exponent r =
     (case r of
        [] \<Rightarrow> Some 1
      | e # r1 \<Rightarrow>
          if e = CHR ''e'' \<or> e = CHR ''E''
          then (let (neg, r2) = take_sign r1; (ds, r3) = digitpart r2
                in if ds = [] \<or> r3 \<noteq> [] then None
                   else Some (if neg then 1 / 10 ^ digits_value ds else 10 ^ digits_value ds))
          else None)"

definition parse_number :: "string \<Rightarrow> rat option" where
  "parse_number u =
     (let (ip, r1) = digitpart u;
          (fp, r2) = (case r1 of [] \<Rightarrow> ([], [])
                      | c # r \<Rightarrow> if c = CHR ''.'' then digitpart r else ([], c # r))
      in if ip = [] \<and> fp = [] then None
         else map_option
                (\<lambda>scale. (of_nat (digits_value ip) + of_nat (digits_value fp) / 10 ^ length fp) * scale)
                (parse_exponent r2))"

definition py_float :: "string \<Rightarrow> pyfloat option" where
  "py_float s =
     (let (neg, u) = take_sign (strip s); l = map ascii_lower u
      in if l = ''inf'' \<or> l = ''infinity'' then Some (if neg then NInf else PInf)
         else if l = ''nan'' then Some NaN
         else map_option (\<lambda>q. Fin (if neg then - q else q)) (parse_number u))"

section \<open>Price classification (\<open>prepare-import-data.py\<close>)\<close>

subsection \<open>The coercion \<open>to_float\<close>, lines 86 to 99\<close>

text \<open>
  A price cell of a spreadsheet row, by the tests \<open>to_float\<close> makes on it:
  \<open>Missing\<close> for \<open>None\<close>, \<open>NaT\<close> and \<open>pd.NA\<close>; \<open>Text s\<close> for a string; \<open>Number x\<close> for a
  number, with \<open>x = float(val)\<close>; \<open>Other\<close> for any other object, on which \<open>float(val)\<close>
  raises. \<open>pd.isna\<close> holds of \<open>Missing\<close> and of the number not-a-number.
\<close>

datatype price_cell = Missing | Text string | Number pyfloat | Other

text \<open>
  What \<open>to_float\<close> returns: the string \<open>'Auf Anfrage'\<close> or a number (the integer \<open>0\<close> is
  the number zero).
\<close>

datatype price_val = AufAnfrage | Num pyfloat

definition euro :: string where
  "euro = [CHR 0xE2, CHR 0x82, CHR 0xAC]"

fun to_float :: "price_cell \<Rightarrow> price_val" where
  "to_float Missing = Num (Fin 0)"
| "to_float (Text val) =
     (if sublist ''Auf Anfrage'' val \<or> sublist ''auf Anfrage'' val then AufAnfrage
      else case py_float (strip (replace euro '''' (replace '','' ''.'' val))) of
             Some x \<Rightarrow> Num x
           | None \<Rightarrow> Num (Fin 0))"
| "to_float (Number x) = (if x = NaN then Num (Fin 0) else Num x)"
| "to_float Other = Num (Fin 0)"

subsection \<open>Comparisons on the coerced prices\<close>

text \<open>
  \<open>p == 0\<close> is false for the string; \<open>p > 0\<close> raises \<open>TypeError\<close> for the string;
  \<open>p != q\<close> is true for a string and a number.
\<close>

fun is_zero :: "price_val \<Rightarrow> bool" where
  "is_zero AufAnfrage = False"
| "is_zero (Num x) = float_eq x (Fin 0)"

fun gt_zero :: "price_val \<Rightarrow> py_error + bool" where
  "gt_zero AufAnfrage = Inl TypeError"
| "gt_zero (Num x) = Inr (float_gt0 x)"

fun not_equal :: "price_val \<Rightarrow> price_val \<Rightarrow> bool" where
  "not_equal AufAnfrage AufAnfrage = False"
| "not_equal (Num x) (Num y) = (\<not> float_eq x y)"
| "not_equal _ _ = True"

text \<open>\<open>a or b\<close> on comparisons that may raise: \<open>b\<close> is evaluated only when \<open>a\<close> is false.\<close>

fun py_or :: "py_error + bool \<Rightarrow> py_error + bool \<Rightarrow> py_error + bool" where
  "py_or (Inl e) b = Inl e"
| "py_or (Inr True) b = Inr True"
| "py_or (Inr False) b = b"

subsection \<open>Rows, import records and statistics\<close>

text \<open>
  A spreadsheet row, with the columns the loop reads. The text columns hold \<open>str\<close> of
  the cell (of the default when the column is absent).
\<close>

record excel_row =
  Artikelnummer :: string
  Matchcode :: string
  Beschreibung :: string
  Preis_1 :: price_cell
  Preis_2 :: price_cell
  Preis_3 :: price_cell
  Preis_4 :: price_cell
  Einheit :: string

record tier =
  quantity :: "nat option"
  tier_price :: price_val

text \<open>
  The dictionary \<open>article\<close>; a key that the loop sets in some branches only is an
  option. \<open>import_articleNumber\<close> and \<open>import_productName\<close> are the keys
  \<open>articleNumber\<close> and \<open>productName\<close>.
\<close>

record article =
  import_articleNumber :: string
  import_productName :: string
  description :: string
  currency :: string
  sourceUrl :: string
  category :: string
  published :: bool
  verified :: bool
  ocrConfidence :: rat
  price :: "price_val option"
  tieredPricesText :: "string option"
  tieredPrices :: "tier list option"
  manufacturer :: "string option"
  ean :: "string option"

record stats =
  single_price :: nat
  tiered_price :: nat
  auf_anfrage :: nat
  needs_tier_quantities :: nat

text \<open>Lines 57 to 62.\<close>

definition initial_stats :: stats where
  "initial_stats = \<lparr>single_price = 0, tiered_price = 0, auf_anfrage = 0, needs_tier_quantities = 0\<rparr>"

text \<open>Lines 65 to 75.\<close>

definition new_article :: "excel_row \<Rightarrow> article" where
  "new_article row =
     \<lparr>import_articleNumber = strip (Artikelnummer row),
      import_productName = Matchcode row,
      description = Beschreibung row,
      currency = ''EUR'',
      sourceUrl = ''https://shop.firmenich.de'',
      category = ''FROM_EXCEL'',
      published = True,
      verified = True,
      ocrConfidence = 1,
      price = None,
      tieredPricesText = None,
      tieredPrices = None,
      manufacturer = None,
      ean = None\<rparr>"

text \<open>The text of the last branch (line 144), \<open>Preis nicht verfuegbar\<close> with u umlaut, in UTF-8.\<close>

definition preis_nicht_verfuegbar :: string where
  "preis_nicht_verfuegbar = ''Preis nicht verf'' @ [CHR 0xC3, CHR 0xBC] @ ''gbar''"

subsection \<open>The branches, lines 106 to 145\<close>

text \<open>
  Lines 119 to 124: one \<open>if p > 0 and p != previous: tiers.append(...)\<close>.
\<close>

definition add_tier :: "price_val \<Rightarrow> price_val \<Rightarrow> tier list \<Rightarrow> py_error + tier list" where
  "add_tier p previous tiers =
     (case gt_zero p of
        Inl e \<Rightarrow> Inl e
      | Inr positive \<Rightarrow>
          Inr (if positive \<and> not_equal p previous
               then tiers @ [\<lparr>quantity = None, tier_price = p\<rparr>] else tiers))"

text \<open>Lines 118 to 124.\<close>

definition collect_tiers :: "price_val \<Rightarrow> price_val \<Rightarrow> price_val \<Rightarrow> price_val \<Rightarrow> py_error + tier list" where
  "collect_tiers preis1 preis2 preis3 preis4 =
     (case add_tier preis2 preis1 [] of
        Inl e \<Rightarrow> Inl e
      | Inr t2 \<Rightarrow>
          (case add_tier preis3 preis2 t2 of
             Inl e \<Rightarrow> Inl e
           | Inr t3 \<Rightarrow> add_tier preis4 preis3 t3))"

text \<open>Lines 113 to 134: the branch of the tiered prices.\<close>

definition tiered_branch ::
  "stats \<Rightarrow> article \<Rightarrow> price_val \<Rightarrow> price_val \<Rightarrow> price_val \<Rightarrow> price_val \<Rightarrow> py_error + stats \<times> article" where
  "tiered_branch st art preis1 preis2 preis3 preis4 =
     (case gt_zero preis1 of
        Inl e \<Rightarrow> Inl e
      | Inr positive1 \<Rightarrow>
          (let art1 = art\<lparr>price := Some (if positive1 then preis1 else preis2)\<rparr>
           in case collect_tiers preis1 preis2 preis3 preis4 of
                Inl e \<Rightarrow> Inl e
              | Inr tiers \<Rightarrow>
                  if tiers \<noteq> []
                  then Inr (st\<lparr>tiered_price := tiered_price st + 1,
                               needs_tier_quantities := needs_tier_quantities st + 1\<rparr>,
                            art1\<lparr>tieredPrices := Some tiers, verified := False,
                                 manufacturer := Some ''NEEDS_TIER_QUANTITIES''\<rparr>)
                  else Inr (st\<lparr>single_price := single_price st + 1\<rparr>, art1)))"

text \<open>Lines 106 to 145: the chain \<open>if\<close>, \<open>elif\<close>, \<open>elif\<close>, \<open>else\<close>.\<close>

definition classify ::
  "stats \<Rightarrow> article \<Rightarrow> price_val \<Rightarrow> price_val \<Rightarrow> price_val \<Rightarrow> price_val \<Rightarrow> py_error + stats \<times> article" where
  "classify st art preis1 preis2 preis3 preis4 =
     (if preis1 = AufAnfrage \<or> (is_zero preis1 \<and> is_zero preis2 \<and> is_zero preis3 \<and> is_zero preis4)
      then Inr (st\<lparr>auf_anfrage := auf_anfrage st + 1\<rparr>,
                art\<lparr>price := Some (Num (Fin 0)), tieredPricesText := Some ''Auf Anfrage''\<rparr>)
      else case py_or (gt_zero preis2) (py_or (gt_zero preis3) (gt_zero preis4)) of
             Inl e \<Rightarrow> Inl e
           | Inr True \<Rightarrow> tiered_branch st art preis1 preis2 preis3 preis4
           | Inr False \<Rightarrow>
               (case gt_zero preis1 of
                  Inl e \<Rightarrow> Inl e
                | Inr True \<Rightarrow> Inr (st\<lparr>single_price := single_price st + 1\<rparr>, art\<lparr>price := Some preis1\<rparr>)
                | Inr False \<Rightarrow>
                    Inr (st\<lparr>auf_anfrage := auf_anfrage st + 1\<rparr>,
                         art\<lparr>price := Some (Num (Fin 0)),
                             tieredPricesText := Some preis_nicht_verfuegbar\<rparr>)))"

subsection \<open>The loop, lines 64 to 151\<close>

text \<open>One turn of the loop: the row becomes an import record, the statistics are updated.\<close>

definition process_row :: "stats \<Rightarrow> excel_row \<Rightarrow> py_error + stats \<times> article" where
  "process_row st row =
     (case classify st (new_article row)
             (to_float (Preis_1 row)) (to_float (Preis_2 row))
             (to_float (Preis_3 row)) (to_float (Preis_4 row)) of
        Inl e \<Rightarrow> Inl e
      | Inr (st1, art) \<Rightarrow>
          Inr (st1, if Einheit row \<noteq> [] \<and> Einheit row \<noteq> ''nan''
                    then art\<lparr>ean := Some (Einheit row)\<rparr> else art))"

text \<open>The loop stops at the first row that raises, as the script does.\<close>

fun process_rows :: "stats \<Rightarrow> article list \<Rightarrow> excel_row list \<Rightarrow> py_error + stats \<times> article list" where
  "process_rows st import_articles [] = Inr (st, import_articles)"
| "process_rows st import_articles (row # missing_articles) =
     (case process_row st row of
        Inl e \<Rightarrow> Inl e
      | Inr (st1, art) \<Rightarrow> process_rows st1 (import_articles @ [art]) missing_articles)"

text \<open>Lines 46 to 51: the rows of the spreadsheet that the catalog does not have.\<close>

definition missing_rows :: "excel_row list \<Rightarrow> string set \<Rightarrow> excel_row list" where
  "missing_rows df system_article_numbers =
     filter (\<lambda>row. strip (Artikelnummer row) \<notin> system_article_numbers
                   \<and> strip (Artikelnummer row) \<noteq> ''nan'') df"

definition prepare_import :: "excel_row list \<Rightarrow> string set \<Rightarrow> py_error + stats \<times> article list" where
  "prepare_import df system_article_numbers =
     process_rows initial_stats [] (missing_rows df system_article_numbers)"

section \<open>Catalog fetch\<close>

text \<open>
  A key of a JSON object, as \<open>dict.get\<close> sees it: absent, present with the value
  \<open>null\<close>, or present with a value of the type the API documents.
\<close>

datatype 'a field = Absent | Null | Present 'a

text \<open>The truth value Python gives to \<open>d.get(key)\<close> for a key that holds a boolean.\<close>

fun truthy :: "bool field \<Rightarrow> bool" where
  "truthy (Present b) = b"
| "truthy _ = False"

record pagination_info =
  hasNext :: "bool field"
  total :: "nat field"

record envelope =
  success :: "bool field"
  data :: "sys_article list field"
  pagination :: "pagination_info field"

text \<open>
  What one request returns: a body that is no JSON (\<open>response.json()\<close> raises), a JSON
  value that is no object (it has no \<open>get\<close>), or an envelope.
\<close>

datatype response = BadJson | NotObject | Envelope envelope

text \<open>
  \<open>check-missing-correct.py\<close>, lines 46 to 66. The server is the function from the page
  number to the response; the loop need not end, so the result is an option.
  \<open>all_system_articles.extend(None)\<close> raises \<open>TypeError\<close>, and \<open>None.get\<close> raises
  \<open>AttributeError\<close>.
\<close>

partial_function (option) fetch_correct ::
  "(nat \<Rightarrow> response) \<Rightarrow> nat \<Rightarrow> sys_article list \<Rightarrow> (py_error + sys_article list) option" where
  "fetch_correct server page all_system_articles =
     (case server page of
        BadJson \<Rightarrow> Some (Inl JSONDecodeError)
      | NotObject \<Rightarrow> Some (Inl AttributeError)
      | Envelope d \<Rightarrow>
          if truthy (success d)
          then (case data d of
                  Null \<Rightarrow> Some (Inl TypeError)
                | Absent \<Rightarrow>
                    (case pagination d of
                       Null \<Rightarrow> Some (Inl AttributeError)
                     | Absent \<Rightarrow> Some (Inr all_system_articles)
                     | Present p \<Rightarrow>
                         if \<not> truthy (hasNext p) then Some (Inr all_system_articles)
                         else fetch_correct server (page + 1) all_system_articles)
                | Present articles \<Rightarrow>
                    (case pagination d of
                       Null \<Rightarrow> Some (Inl AttributeError)
                     | Absent \<Rightarrow> Some (Inr (all_system_articles @ articles))
                     | Present p \<Rightarrow>
                         if \<not> truthy (hasNext p) then Some (Inr (all_system_articles @ articles))
                         else fetch_correct server (page + 1) (all_system_articles @ articles)))
          else Some (Inr all_system_articles))"

text \<open>
  \<open>prepare-import-data.py\<close>, lines 27 to 40 (the same loop is in
  \<open>mark-non-excel-articles.py\<close>, lines 37 to 54): the test is
  \<open>data.get('success') and data.get('data')\<close>, so a page without records ends the loop.
\<close>

partial_function (option) fetch_prepare ::
  "(nat \<Rightarrow> response) \<Rightarrow> nat \<Rightarrow> sys_article list \<Rightarrow> (py_error + sys_article list) option" where
  "fetch_prepare server page all_system_articles =
     (case server page of
        BadJson \<Rightarrow> Some (Inl JSONDecodeError)
      | NotObject \<Rightarrow> Some (Inl AttributeError)
      | Envelope d \<Rightarrow>
          if truthy (success d)
          then (case data d of
                  Present articles \<Rightarrow>
                    if articles \<noteq> []
                    then (case pagination d of
                            Null \<Rightarrow> Some (Inl AttributeError)
                          | Absent \<Rightarrow> Some (Inr (all_system_articles @ articles))
                          | Present p \<Rightarrow>
                              if \<not> truthy (hasNext p) then Some (Inr (all_system_articles @ articles))
                              else fetch_prepare server (page + 1) (all_system_articles @ articles))
                    else Some (Inr all_system_articles)
                | _ \<Rightarrow> Some (Inr all_system_articles))
          else Some (Inr all_system_articles))"

text \<open>
  The pages the claims speak of. A page continues the pagination when it is an envelope
  with a true \<open>success\<close>, a list of records and a true \<open>hasNext\<close>; \<open>page_records\<close> are
  its records. A page is unsuccessful when it is an envelope whose \<open>success\<close> is absent,
  \<open>null\<close> or false.
\<close>

fun continues :: "response \<Rightarrow> bool" where
  "continues (Envelope d) =
     (truthy (success d)
      \<and> (case data d of Present articles \<Rightarrow> True | _ \<Rightarrow> False)
      \<and> (case pagination d of Present p \<Rightarrow> truthy (hasNext p) | _ \<Rightarrow> False))"
| "continues _ = False"

fun page_records :: "response \<Rightarrow> sys_article list" where
  "page_records (Envelope d) = (case data d of Present articles \<Rightarrow> articles | _ \<Rightarrow> [])"
| "page_records _ = []"

fun unsuccessful :: "response \<Rightarrow> bool" where
  "unsuccessful (Envelope d) = (\<not> truthy (success d))"
| "unsuccessful _ = False"

text \<open>
  Two servers for the examples below. The first answers two successful pages that announce
  a next page and then a page with \<open>success\<close> false; the second answers a successful page
  whose \<open>pagination\<close> is \<open>null\<close>.
\<close>

definition three_pages :: "nat \<Rightarrow> response" where
  "three_pages page =
     (if page = 1
      then Envelope \<lparr>success = Present True,
             data = Present [\<lparr>db_id = 1, articleNumber = Some ''A1'', productName = ''Kiste''\<rparr>,
                             \<lparr>db_id = 2, articleNumber = Some ''B2'', productName = ''Band''\<rparr>],
             pagination = Present \<lparr>hasNext = Present True, total = Present 3\<rparr>\<rparr>
      else if page = 2
      then Envelope \<lparr>success = Present True,
             data = Present [\<lparr>db_id = 3, articleNumber = Some ''C3'', productName = ''Folie''\<rparr>],
             pagination = Present \<lparr>hasNext = Present True, total = Present 3\<rparr>\<rparr>
      else Envelope \<lparr>success = Present False, data = Absent, pagination = Absent\<rparr>)"

definition null_pagination :: "nat \<Rightarrow> response" where
  "null_pagination page =
     Envelope \<lparr>success = Present True,
       data = Present [\<lparr>db_id = 1, articleNumber = Some ''A1'', productName = ''Kiste''\<rparr>],
       pagination = Null\<rparr>"

section \<open>Output of the scripts\<close>

text \<open>
  The dictionaries that the scripts dump as JSON. Of the details that the scripts attach to
  an identifier only the identifier is kept. \<open>sorted\<close> on strings is \<^const>\<open>sort\<close>.
\<close>

record summary =
  totalInExcel :: nat
  totalInSystem :: nat
  foundInBoth :: nat
  missingInSystem :: nat
  coverage :: string

text \<open>
  \<open>check-missing-correct.py\<close>, lines 91 to 120. \<open>missing_list\<close> is the order in which
  Python enumerates the set \<open>missing\<close>, which differs from run to run; the script sorts
  it before every use. The division of line 116 may raise.
\<close>

record result_correct =
  result_summary :: summary
  missingArticles :: "string list"
  missingArticleNumbers :: "string list"

definition write_result_correct ::
  "string set \<Rightarrow> string set \<Rightarrow> string list \<Rightarrow> py_error + result_correct" where
  "write_result_correct excel_articles system_article_numbers missing_list =
     (case coverage_correct excel_articles system_article_numbers of
        Inl e \<Rightarrow> Inl e
      | Inr cov \<Rightarrow>
          Inr \<lparr>result_summary =
                 \<lparr>totalInExcel = card excel_articles,
                  totalInSystem = card system_article_numbers,
                  foundInBoth = card (found excel_articles system_article_numbers),
                  missingInSystem = card (missing excel_articles system_article_numbers),
                  coverage = cov\<rparr>,
               missingArticles = take 500 (sort missing_list),
               missingArticleNumbers = sort missing_list\<rparr>)"

text \<open>
  \<open>compare-excel-system.py\<close>, lines 122 to 134. \<open>now\<close> is the text of
  \<open>pd.Timestamp.now().isoformat()\<close>, the time of the run.
\<close>

definition EXCEL_PATH :: string where
  "EXCEL_PATH = ''C:'' @ [CHR 0x5C] @ ''Users'' @ [CHR 0x5C] @ ''benfi'' @ [CHR 0x5C]
     @ ''Downloads'' @ [CHR 0x5C] @ ''Alle Artikel_gemerged.xlsx''"

record result_compare =
  timestamp :: string
  excelFile :: string
  compare_summary :: summary
  compare_missingArticles :: "string list"
  foundArticles :: "string list"

definition write_result_compare :: "string \<Rightarrow> string list \<Rightarrow> string set \<Rightarrow> result_compare" where
  "write_result_compare now excel_articles system_articles =
     (let (missing_articles, found_articles) = compare_articles excel_articles system_articles
      in \<lparr>timestamp = now,
          excelFile = EXCEL_PATH,
          compare_summary =
            \<lparr>totalInExcel = length excel_articles,
             totalInSystem = card system_articles,
             foundInBoth = length found_articles,
             missingInSystem = length missing_articles,
             coverage = coverage_compare excel_articles system_articles\<rparr>,
          compare_missingArticles = sort missing_articles,
          foundArticles = sort found_articles\<rparr>)"

text \<open>
  \<open>prepare-import-data.py\<close>, lines 160 to 166. \<open>now\<close> is the text of
  \<open>datetime.now().isoformat()\<close>.
\<close>

record import_data =
  import_timestamp :: string
  source :: string
  statistics :: stats
  totalArticles :: nat
  articles :: "article list"

definition write_import_data :: "string \<Rightarrow> stats \<Rightarrow> article list \<Rightarrow> import_data" where
  "write_import_data now st import_articles =
     \<lparr>import_timestamp = now,
      source = ''Excel Import'',
      statistics = st,
      totalArticles = length import_articles,
      articles = import_articles\<rparr>"

section \<open>Identifier extraction of \<open>compare-excel-system.py\<close>\<close>

text \<open>
  A row of the data frame: the cells by column name. The dictionary \<open>excel_articles\<close> is
  an association list: \<^const>\<open>AList.update\<close> replaces the value of a key that is
  present, in place, and appends a new key, as a Python dictionary does.
\<close>

type_synonym row = "(string \<times> cell) list"

record article_data =
  data_articleNumber :: string
  excelRow :: row
  rowIndex :: nat
  data_productName :: "string option"
  data_price :: "pyfloat option"

text \<open>Lines 34 to 46: the first candidate that is a column, else the first column.\<close>

definition article_columns :: "string list" where
  "article_columns = [''Artikel'', ''Artikelnummer'', ''Art.-Nr.'', ''Art.Nr.'', ''Artikel-Nr.'', ''ArtikelNr'']"

definition choose_article_column :: "string list \<Rightarrow> py_error + string" where
  "choose_article_column columns =
     (case find (\<lambda>col. col \<in> set columns) article_columns of
        Some col \<Rightarrow> Inr col
      | None \<Rightarrow> (case columns of [] \<Rightarrow> Inl IndexError | first # _ \<Rightarrow> Inr first))"

text \<open>
  Lines 61 to 64 and 67 to 73: the first of the columns that the row has with a cell that is
  not missing; the loop stops there.
\<close>

fun first_value :: "row \<Rightarrow> string list \<Rightarrow> string option" where
  "first_value r [] = None"
| "first_value r (col # cols) =
     (case map_of r col of Some (Val v) \<Rightarrow> Some v | _ \<Rightarrow> first_value r cols)"

text \<open>Lines 50 to 75: one turn of the loop, for the row with the index \<open>index\<close>.\<close>

definition add_excel_row ::
  "string \<Rightarrow> (string \<times> article_data) list \<Rightarrow> nat \<times> row \<Rightarrow> py_error + (string \<times> article_data) list" where
  "add_excel_row article_column excel_articles indexed_row =
     (let (index, r) = indexed_row
      in case map_of r article_column of
           None \<Rightarrow> Inl KeyError
         | Some NA \<Rightarrow> Inr excel_articles
         | Some (Val v) \<Rightarrow>
             (let article_number = strip v
              in if article_number \<noteq> [] \<and> article_number \<noteq> ''nan''
                 then Inr (AList.update article_number
                        \<lparr>data_articleNumber = article_number,
                         excelRow = r,
                         rowIndex = index + 2,
                         data_productName =
                           first_value r [''Bezeichnung'', ''Produktname'', ''Artikel'', ''Name'', ''Beschreibung''],
                         data_price =
                           (case first_value r [''Preis'', ''VK-Preis'', ''Einzelpreis'', ''VK'', ''Verkaufspreis''] of
                              None \<Rightarrow> None
                            | Some p \<Rightarrow> py_float (strip (replace euro '''' (replace '','' ''.'' p))))\<rparr>
                        excel_articles)
                 else Inr excel_articles))"

text \<open>Lines 49 to 75: the loop over the rows with their indices.\<close>

fun add_excel_rows ::
  "string \<Rightarrow> (string \<times> article_data) list \<Rightarrow> (nat \<times> row) list \<Rightarrow> py_error + (string \<times> article_data) list" where
  "add_excel_rows article_column excel_articles [] = Inr excel_articles"
| "add_excel_rows article_column excel_articles (indexed_row # rest) =
     (case add_excel_row article_column excel_articles indexed_row of
        Inl e \<Rightarrow> Inl e
      | Inr excel_articles1 \<Rightarrow> add_excel_rows article_column excel_articles1 rest)"

definition extract_compare :: "string \<Rightarrow> row list \<Rightarrow> py_error + (string \<times> article_data) list" where
  "extract_compare article_column rows =
     add_excel_rows article_column [] (zip [0..<length rows] rows)"

section \<open>Properties of the extraction\<close>

lemma foldl_add_article:
  "foldl add_article acc column =
     acc \<union> {strip v |v. Val v \<in> set column \<and> strip v \<noteq> [] \<and> strip v \<noteq> ''nan''}"
proof (induction column arbitrary: acc)
  case Nil
  show ?case by simp
next
  case (Cons c column)
  show ?case
  proof (cases c)
    case NA
    then show ?thesis using Cons.IH [of acc] by auto
  next
    case (Val v)
    then show ?thesis using Cons.IH [of "add_article acc (Val v)"] by (auto simp: Let_def)
  qed
qed

lemma extract_excel_articles_eq:
  "extract_excel_articles column =
     {strip v |v. Val v \<in> set column \<and> strip v \<noteq> [] \<and> strip v \<noteq> ''nan''}"
  by (simp add: extract_excel_articles_def foldl_add_article)

lemma add_article_unusable: "unusable c \<Longrightarrow> add_article acc c = acc"
  by (cases c) (auto simp: Let_def)

lemma add_excel_row_keys:
  assumes "map_of r article_column = Some c"
  shows "\<exists>d. add_excel_row article_column acc (i, r) = Inr d
     \<and> fst ` set d = add_article (fst ` set acc) c"
proof (cases c)
  case NA
  with assms show ?thesis by (simp add: add_excel_row_def)
next
  case (Val v)
  with assms show ?thesis by (auto simp: add_excel_row_def Let_def dom_update)
qed

lemma add_excel_rows_keys:
  assumes "\<forall>r \<in> set (map snd indexed_rows). map_of r article_column \<noteq> None"
  shows "\<exists>d. add_excel_rows article_column acc indexed_rows = Inr d
     \<and> fst ` set d
        = foldl add_article (fst ` set acc)
            (map (\<lambda>r. the (map_of r article_column)) (map snd indexed_rows))"
  using assms
proof (induction indexed_rows arbitrary: acc)
  case Nil
  then show ?case by simp
next
  case (Cons ir rest)
  obtain i r where ir: "ir = (i, r)" by (cases ir)
  with Cons.prems obtain c where c: "map_of r article_column = Some c" by auto
  from add_excel_row_keys [OF c] obtain d1 where
    d1: "add_excel_row article_column acc (i, r) = Inr d1"
        "fst ` set d1 = add_article (fst ` set acc) c" by blast
  from Cons.prems have "\<forall>r \<in> set (map snd rest). map_of r article_column \<noteq> None" by simp
  from Cons.IH [OF this, of d1] obtain d where
    "add_excel_rows article_column d1 rest = Inr d"
    "fst ` set d = foldl add_article (fst ` set d1)
            (map (\<lambda>r. the (map_of r article_column)) (map snd rest))" by blast
  then show ?case using ir c d1 by simp
qed

lemma extract_compare_keys:
  assumes "\<forall>r \<in> set rows. map_of r article_column \<noteq> None"
  shows "\<exists>excel_articles. extract_compare article_column rows = Inr excel_articles
     \<and> fst ` set excel_articles
        = extract_excel_articles (map (\<lambda>r. the (map_of r article_column)) rows)"
proof -
  have s: "map snd (zip [0..<length rows] rows) = rows" by (simp add: map_snd_zip)
  from assms have "\<forall>r \<in> set (map snd (zip [0..<length rows] rows)). map_of r article_column \<noteq> None"
    unfolding s .
  from add_excel_rows_keys [OF this, of "[]"] show ?thesis
    unfolding s extract_compare_def extract_excel_articles_def by simp
qed

section \<open>Properties of the reconciliation\<close>

lemma partition_system_fst:
  "art_num ` set (fst (partition_system E arts)) = E \<inter> art_num ` set arts"
  by (induction arts) (auto simp: case_prod_beta Let_def)

lemma partition_system_snd:
  "art_num ` set (snd (partition_system E arts)) = art_num ` set arts - E"
  by (induction arts) (auto simp: case_prod_beta Let_def)

lemma system_numbers_art_num:
  assumes "\<forall>a \<in> set arts. articleNumber a \<noteq> None"
  shows "system_numbers arts = art_num ` set arts"
proof -
  have "strip (case articleNumber a of None \<Rightarrow> ''None'' | Some s \<Rightarrow> s) = art_num a"
    if "a \<in> set arts" for a
    using that assms by (auto simp: art_num_def)
  then show ?thesis unfolding system_numbers_def by (auto simp: image_iff)
qed

lemma compare_articles_found:
  "snd (compare_articles keys C) = filter (\<lambda>k. k \<in> C) keys"
  by (induction keys) (auto simp: case_prod_beta Let_def)

lemma compare_articles_missing:
  "fst (compare_articles keys C) = filter (\<lambda>k. k \<notin> C) keys"
  by (induction keys) (auto simp: case_prod_beta Let_def)

lemma length_found_card:
  assumes "distinct keys"
  shows "length (snd (compare_articles keys C)) = card (set keys \<inter> C)"
proof -
  let ?f = "filter (\<lambda>k. k \<in> C) keys"
  have "distinct ?f" using assms by simp
  then have "card (set ?f) = length ?f" by (rule distinct_card)
  moreover have "set ?f = set keys \<inter> C" by auto
  ultimately show ?thesis by (simp add: compare_articles_found)
qed

section \<open>Claims about the reconciliation\<close>

text \<open>
  Claim C1. For the spreadsheet identifiers \<open>S\<close> and the catalog identifiers \<open>C\<close> the
  reconciliation computes matched = \<open>S \<inter> C\<close>, spreadsheetOnly = \<open>S - C\<close> and
  catalogOnly = \<open>C - S\<close>; the three sets are pairwise disjoint, matched and spreadsheetOnly
  together are \<open>S\<close>, matched and catalogOnly together are \<open>C\<close>. The first line is
  \<open>check-missing-correct.py\<close>, which works on the two sets; the rest is
  \<open>mark-non-excel-articles.py\<close>, which sorts the catalog records into two lists and the
  spreadsheet identifiers into a third, for a catalog whose records all carry an identifier.
\<close>

theorem C1_reconciliation_partition:
  assumes "\<forall>a \<in> set all_system_articles. articleNumber a \<noteq> None"
  shows "found S C = S \<inter> C \<and> missing S C = S - C
    \<and> found S C \<inter> missing S C = {} \<and> found S C \<union> missing S C = S
    \<and> (let excel_articles = set excel_list;
            catalog = system_numbers all_system_articles;
            (in_both, only_in_system) = partition_system excel_articles all_system_articles;
            matched = art_num ` set in_both;
            catalogOnly = art_num ` set only_in_system;
            spreadsheetOnly = set (only_in_excel excel_list catalog)
        in matched = excel_articles \<inter> catalog
         \<and> spreadsheetOnly = excel_articles - catalog
         \<and> catalogOnly = catalog - excel_articles
         \<and> matched \<inter> spreadsheetOnly = {} \<and> matched \<inter> catalogOnly = {}
         \<and> spreadsheetOnly \<inter> catalogOnly = {}
         \<and> matched \<union> spreadsheetOnly = excel_articles
         \<and> matched \<union> catalogOnly = catalog)"
proof -
  have c: "system_numbers all_system_articles = art_num ` set all_system_articles"
    using assms by (rule system_numbers_art_num)
  have m: "art_num ` set (fst (partition_system (set excel_list) all_system_articles))
             = set excel_list \<inter> art_num ` set all_system_articles"
    by (rule partition_system_fst)
  have o: "art_num ` set (snd (partition_system (set excel_list) all_system_articles))
             = art_num ` set all_system_articles - set excel_list"
    by (rule partition_system_snd)
  have e: "set (only_in_excel excel_list (art_num ` set all_system_articles))
             = set excel_list - art_num ` set all_system_articles"
    by (auto simp: only_in_excel_def)
  have "found S C = S \<inter> C \<and> missing S C = S - C
    \<and> found S C \<inter> missing S C = {} \<and> found S C \<union> missing S C = S"
    by (auto simp: found_def missing_def)
  moreover have "(let excel_articles = set excel_list;
            catalog = system_numbers all_system_articles;
            (in_both, only_in_system) = partition_system excel_articles all_system_articles;
            matched = art_num ` set in_both;
            catalogOnly = art_num ` set only_in_system;
            spreadsheetOnly = set (only_in_excel excel_list catalog)
        in matched = excel_articles \<inter> catalog
         \<and> spreadsheetOnly = excel_articles - catalog
         \<and> catalogOnly = catalog - excel_articles
         \<and> matched \<inter> spreadsheetOnly = {} \<and> matched \<inter> catalogOnly = {}
         \<and> spreadsheetOnly \<inter> catalogOnly = {}
         \<and> matched \<union> spreadsheetOnly = excel_articles
         \<and> matched \<union> catalogOnly = catalog)"
    unfolding Let_def case_prod_beta c m o e by blast
  ultimately show ?thesis by blast
qed



text \<open>
  The theorem at a spreadsheet with the identifiers A123 and C9 and a catalog with the
  identifiers A123 (untrimmed) and B7.
\<close>

lemma strip_A123: "strip ''  A123 '' = ''A123''" by code_simp
lemma strip_B7: "strip ''B7'' = ''B7''" by code_simp

theorem C1_reconciliation_partition_witness:
  "map articleNumber [\<lparr>db_id = 1, articleNumber = Some ''  A123 '', productName = ''Kiste''\<rparr>,
                      \<lparr>db_id = 2, articleNumber = Some ''B7'', productName = ''Band''\<rparr>]
     = [Some ''  A123 '', Some ''B7'']
   \<and> found {''A123'', ''C9''} {''A123'', ''B7''} = {''A123''}
   \<and> missing {''A123'', ''C9''} {''A123'', ''B7''} = {''C9''}
   \<and> art_num ` set (fst (partition_system (set [''A123'', ''C9''])
        [\<lparr>db_id = 1, articleNumber = Some ''  A123 '', productName = ''Kiste''\<rparr>,
         \<lparr>db_id = 2, articleNumber = Some ''B7'', productName = ''Band''\<rparr>])) = {''A123''}
   \<and> art_num ` set (snd (partition_system (set [''A123'', ''C9''])
        [\<lparr>db_id = 1, articleNumber = Some ''  A123 '', productName = ''Kiste''\<rparr>,
         \<lparr>db_id = 2, articleNumber = Some ''B7'', productName = ''Band''\<rparr>])) = {''B7''}
   \<and> set (only_in_excel [''A123'', ''C9''] (system_numbers
        [\<lparr>db_id = 1, articleNumber = Some ''  A123 '', productName = ''Kiste''\<rparr>,
         \<lparr>db_id = 2, articleNumber = Some ''B7'', productName = ''Band''\<rparr>])) = {''C9''}"
proof -
  let ?arts = "[\<lparr>db_id = 1, articleNumber = Some ''  A123 '', productName = ''Kiste''\<rparr>,
                \<lparr>db_id = 2, articleNumber = Some ''B7'', productName = ''Band''\<rparr>]"
  have h: "\<forall>a \<in> set ?arts. articleNumber a \<noteq> None" by simp
  have c: "system_numbers ?arts = {''A123'', ''B7''}"
    by (simp add: system_numbers_def strip_A123 strip_B7)
  have i1: "{''A123'', ''C9''} \<inter> {''A123'', ''B7''} = {''A123''}" by simp
  have i2: "{''A123'', ''C9''} - {''A123'', ''B7''} = {''C9''}" by simp
  have i3: "{''A123'', ''B7''} - {''A123'', ''C9''} = {''B7''}" by simp
  have s: "set [''A123'', ''C9''] = {''A123'', ''C9''}" by simp
  note T = C1_reconciliation_partition [OF h, of "{''A123'', ''C9''}" "{''A123'', ''B7''}" "[''A123'', ''C9'']",
      unfolded Let_def case_prod_beta c s i1 i2 i3]
  from T have t1: "found {''A123'', ''C9''} {''A123'', ''B7''} = {''A123''}" by (rule conjunct1)
  from T have t2: "missing {''A123'', ''C9''} {''A123'', ''B7''} = {''C9''}"
    by (rule conjunct2 [THEN conjunct1])
  from T have t3: "art_num ` set (fst (partition_system {''A123'', ''C9''} ?arts)) = {''A123''}"
    by (rule conjunct2 [THEN conjunct2, THEN conjunct2, THEN conjunct2, THEN conjunct1])
  from T have t4: "set (only_in_excel [''A123'', ''C9''] {''A123'', ''B7''}) = {''C9''}"
    by (rule conjunct2 [THEN conjunct2, THEN conjunct2, THEN conjunct2, THEN conjunct2, THEN conjunct1])
  from T have t5: "art_num ` set (snd (partition_system {''A123'', ''C9''} ?arts)) = {''B7''}"
    by (rule conjunct2 [THEN conjunct2, THEN conjunct2, THEN conjunct2, THEN conjunct2, THEN conjunct2, THEN conjunct1])
  show ?thesis unfolding c s
    by (intro conjI t1 t2 t3 t4 t5) simp
qed

section \<open>Properties of the float arithmetic\<close>

lemma round_half_even_cases:
  "round_half_even y = \<lfloor>y\<rfloor> \<and> y - of_int \<lfloor>y\<rfloor> \<le> 1 / 2
   \<or> round_half_even y = \<lfloor>y\<rfloor> + 1 \<and> 1 / 2 \<le> y - of_int \<lfloor>y\<rfloor>"
proof -
  consider (lo) "y - of_int \<lfloor>y\<rfloor> < 1 / 2" | (hi) "1 / 2 < y - of_int \<lfloor>y\<rfloor>"
    | (tie) "y - of_int \<lfloor>y\<rfloor> = 1 / 2" by fastforce
  then show ?thesis
  proof cases
    case lo
    then have "round_half_even y = \<lfloor>y\<rfloor>" by (simp add: round_half_even_def Let_def)
    with lo show ?thesis by simp
  next
    case hi
    then have "\<not> y - of_int \<lfloor>y\<rfloor> < 1 / 2" by simp
    with hi have "round_half_even y = \<lfloor>y\<rfloor> + 1" by (simp add: round_half_even_def Let_def)
    with hi show ?thesis by simp
  next
    case tie
    then have "round_half_even y = (if even \<lfloor>y\<rfloor> then \<lfloor>y\<rfloor> else \<lfloor>y\<rfloor> + 1)"
      by (simp add: round_half_even_def Let_def)
    with tie show ?thesis by (cases "even \<lfloor>y\<rfloor>") simp_all
  qed
qed

lemma round_half_even_error: "\<bar>of_int (round_half_even y) - y\<bar> \<le> 1 / 2"
proof -
  have b: "of_int \<lfloor>y\<rfloor> \<le> y" "y < of_int \<lfloor>y\<rfloor> + 1" by linarith+
  from round_half_even_cases [of y] show ?thesis
  proof
    assume "round_half_even y = \<lfloor>y\<rfloor> \<and> y - of_int \<lfloor>y\<rfloor> \<le> 1 / 2"
    then show ?thesis using b by simp
  next
    assume "round_half_even y = \<lfloor>y\<rfloor> + 1 \<and> 1 / 2 \<le> y - of_int \<lfloor>y\<rfloor>"
    then show ?thesis using b by simp
  qed
qed

lemma round_half_even_le:
  assumes "y \<le> of_int k"
  shows "round_half_even y \<le> k"
proof -
  let ?f = "\<lfloor>y\<rfloor>"
  have fk: "?f \<le> k" using assms by (simp add: floor_le_iff) 
  show ?thesis
  proof (cases "?f = k")
    case True
    then have "y = of_int k" using assms by (metis of_int_floor_le order_antisym)
    then show ?thesis by (simp add: round_half_even_def)
  next
    case False
    with fk have "?f + 1 \<le> k" by simp
    then show ?thesis unfolding round_half_even_def Let_def using fk by auto
  qed
qed

lemma round_half_even_nonneg: "0 \<le> y \<Longrightarrow> 0 \<le> round_half_even y"
  unfolding round_half_even_def Let_def by (auto simp: zero_le_floor; linarith)

lemma halvings_bounds:
  "1 \<le> q \<Longrightarrow> 2 ^ halvings q \<le> q \<and> q < 2 ^ (halvings q + 1)"
proof (induction q rule: halvings.induct)
  case (1 q)
  show ?case
  proof (cases "q < 2")
    case True
    with "1.prems" show ?thesis by (subst (1 2) halvings.simps) simp
  next
    case False
    then have "1 \<le> q / 2" by simp
    from "1.IH" [OF False this] have "2 ^ halvings (q / 2) \<le> q / 2"
      and "q / 2 < 2 ^ (halvings (q / 2) + 1)" by simp_all
    moreover have "halvings q = Suc (halvings (q / 2))"
      using False by (subst halvings.simps) simp
    ultimately show ?thesis by simp
  qed
qed

lemma doublings_bounds:
  "0 < q \<Longrightarrow> q < 1 \<Longrightarrow> 1 \<le> q * 2 ^ doublings q \<and> q * 2 ^ doublings q < 2"
proof (induction q rule: doublings.induct)
  case (1 q)
  have n: "\<not> (q \<le> 0 \<or> 1 \<le> q)" using "1.prems" by simp
  then have d: "doublings q = Suc (doublings (q * 2))" by (subst doublings.simps) simp
  show ?case
  proof (cases "q * 2 < 1")
    case True
    from "1.IH" [OF n _ True] "1.prems" have
      "1 \<le> q * 2 * 2 ^ doublings (q * 2) \<and> q * 2 * 2 ^ doublings (q * 2) < 2" by simp
    then show ?thesis by (simp add: d mult.assoc)
  next
    case False
    then have "doublings (q * 2) = 0" by (subst doublings.simps) simp
    with False "1.prems" show ?thesis by (simp add: d)
  qed
qed

lemma exponent_bounds:
  assumes "0 < q"
  shows "2 powi exponent q \<le> q \<and> q < 2 powi (exponent q + 1)"
proof (cases "1 \<le> q")
  case True
  from halvings_bounds [OF True] show ?thesis
    using True by (simp add: exponent_def power_int_def nat_add_distrib)
next
  case False
  then have lt: "q < 1" by simp
  let ?k = "doublings q"
  from doublings_bounds [OF assms lt] have b: "1 \<le> q * 2 ^ ?k" "q * 2 ^ ?k < 2" by simp_all
  have k: "0 < ?k" using False assms by (subst doublings.simps) simp
  have p: "(2::rat) powi (- int ?k) = 1 / 2 ^ ?k" by (simp add: power_int_minus field_simps)
  have "(2::rat) powi (- int ?k + 1) = 2 powi (- int ?k) * 2"
    using power_int_add [of "2::rat" "- int ?k" 1] by simp
  then have p1: "(2::rat) powi (- int ?k + 1) = 2 / 2 ^ ?k" using p by simp
  have "1 / 2 ^ ?k \<le> q" using b(1) by (simp add: field_simps)
  moreover have "q < 2 / 2 ^ ?k" using b(2) by (simp add: field_simps)
  ultimately show ?thesis using False p p1 by (simp add: exponent_def)
qed

lemma exponent_le:
  assumes "0 < q" and "q < 2 powi (e + 1)"
  shows "exponent q \<le> e"
proof (rule ccontr)
  assume "\<not> exponent q \<le> e"
  then have "e + 1 \<le> exponent q" by simp
  then have "(2::rat) powi (e + 1) \<le> 2 powi exponent q" by (intro power_int_increasing) simp_all
  also have "\<dots> \<le> q" using exponent_bounds [OF assms(1)] by simp
  finally show False using assms(2) by simp
qed

lemma binary64_zero: "binary64 0 = 0"
  by (simp add: binary64_def)

lemma binary64_nonneg: "0 \<le> q \<Longrightarrow> 0 \<le> binary64 q"
  unfolding binary64_def Let_def
  by (auto intro!: mult_nonneg_nonneg round_half_even_nonneg divide_nonneg_nonneg)

lemma binary64_error:
  assumes "0 < q"
  shows "\<bar>binary64 q - q\<bar> \<le> q / 2 ^ 53"
proof -
  let ?u = "(2::rat) powi (exponent q - 52)"
  have u: "0 < ?u" by simp
  have b: "binary64 q = of_int (round_half_even (q / ?u)) * ?u"
    using assms by (simp add: binary64_def Let_def)
  have "\<bar>of_int (round_half_even (q / ?u)) - q / ?u\<bar> \<le> 1 / 2" by (rule round_half_even_error)
  then have "\<bar>of_int (round_half_even (q / ?u)) - q / ?u\<bar> * ?u \<le> 1 / 2 * ?u"
    using u by (intro mult_right_mono) simp_all
  moreover have "\<bar>of_int (round_half_even (q / ?u)) - q / ?u\<bar> * ?u = \<bar>binary64 q - q\<bar>"
  proof -
    have "\<bar>of_int (round_half_even (q / ?u)) - q / ?u\<bar> * ?u
        = \<bar>(of_int (round_half_even (q / ?u)) - q / ?u) * ?u\<bar>"
      using u by (simp add: abs_mult)
    also have "(of_int (round_half_even (q / ?u)) - q / ?u) * ?u = binary64 q - q"
      using u by (simp add: b field_simps)
    finally show ?thesis .
  qed
  ultimately have e: "\<bar>binary64 q - q\<bar> \<le> ?u / 2" by simp
  have "?u = 2 powi exponent q / 2 ^ 52"
    by (simp add: power_int_diff)
  also have "\<dots> \<le> q / 2 ^ 52" using exponent_bounds [OF assms] by (simp add: divide_right_mono)
  finally have "?u / 2 \<le> q / 2 ^ 52 / 2" by simp
  also have "\<dots> = q / 2 ^ 53" by simp
  finally show ?thesis using e by simp
qed

lemma binary64_le_int:
  assumes "0 \<le> q" and "q \<le> of_int k" and "q < 2 powi (e + 1)" and "e \<le> 52"
  shows "binary64 q \<le> of_int k"
proof (cases "q = 0")
  case True
  with assms(2) show ?thesis by (simp add: binary64_def)
next
  case False
  with assms(1) have pos: "0 < q" by simp
  let ?x = "exponent q"
  let ?u = "(2::rat) powi (?x - 52)"
  have xe: "?x \<le> e" using pos assms(3) by (rule exponent_le)
  define d where "d = nat (52 - ?x)"
  have dx: "int d = 52 - ?x" using xe assms(4) by (simp add: d_def)
  have u: "?u = 1 / 2 ^ d"
  proof -
    have "?x - 52 = - int d" using dx by simp
    then have "?u = 2 powi (- int d)" by simp
    also have "\<dots> = inverse (2 powi int d)" by (rule power_int_minus)
    also have "\<dots> = 1 / 2 ^ d" by (simp add: divide_inverse)
    finally show ?thesis .
  qed
  have b: "binary64 q = of_int (round_half_even (q * 2 ^ d)) / 2 ^ d"
    using pos by (simp add: binary64_def Let_def u)
  have "q * 2 ^ d \<le> of_int k * 2 ^ d" using assms(2) by (simp add: mult_right_mono)
  then have "q * 2 ^ d \<le> of_int (k * 2 ^ d)" by simp
  then have "round_half_even (q * 2 ^ d) \<le> k * 2 ^ d" by (rule round_half_even_le)
  then have "(of_int (round_half_even (q * 2 ^ d)) :: rat) \<le> of_int (k * 2 ^ d)"
    by (simp only: of_int_le_iff)
  then have "of_int (round_half_even (q * 2 ^ d)) / 2 ^ d \<le> (of_int (k * 2 ^ d) :: rat) / 2 ^ d"
    by (intro divide_right_mono) simp_all
  also have "(of_int (k * 2 ^ d) :: rat) / 2 ^ d = of_int k" by simp
  finally show ?thesis by (simp only: b)
qed

lemma binary64_error0:
  assumes "0 \<le> q"
  shows "\<bar>binary64 q - q\<bar> \<le> q / 2 ^ 53"
proof (cases "q = 0")
  case True
  show ?thesis unfolding True binary64_zero by simp
next
  case False
  with assms have "0 < q" by simp
  then show ?thesis by (rule binary64_error)
qed

lemma compose_error:
  fixes p r q K :: rat
  assumes "\<bar>r - q\<bar> \<le> q / K" and "\<bar>p - r * 100\<bar> \<le> r * 100 / K"
    and "q \<le> 1" and "r \<le> 1" and "0 < K"
  shows "\<bar>p - 100 * q\<bar> \<le> 200 / K"
proof -
  have a: "r * 100 / K \<le> 100 / K" using assms(4,5) by (simp add: divide_right_mono)
  have b: "q / K \<le> 1 / K" using assms(3,5) by (simp add: divide_right_mono)
  have c: "100 / K + 100 * (1 / K) = 200 / K" by simp
  have "p - 100 * q = (p - r * 100) + 100 * (r - q)" by simp
  then have "\<bar>p - 100 * q\<bar> \<le> \<bar>p - r * 100\<bar> + \<bar>100 * (r - q)\<bar>"
    by (simp only: abs_triangle_ineq)
  also have "\<bar>100 * (r - q)\<bar> = 100 * \<bar>r - q\<bar>"
    using abs_mult [of 100 "r - q"] by simp
  finally have t: "\<bar>p - 100 * q\<bar> \<le> \<bar>p - r * 100\<bar> + 100 * \<bar>r - q\<bar>" .
  have m1: "100 * \<bar>r - q\<bar> \<le> 100 * (q / K)" using assms(1) by simp
  have m2: "100 * (q / K) \<le> 100 * (1 / K)" using b by simp
  have "\<bar>p - r * 100\<bar> + 100 * \<bar>r - q\<bar> \<le> r * 100 / K + 100 * (q / K)"
    using assms(2) m1 by (rule add_mono)
  also have "\<dots> \<le> 100 / K + 100 * (1 / K)"
    using a m2 by (rule add_mono)
  also have "\<dots> = 200 / K" by (rule c)
  finally show ?thesis using t by (rule order_trans [rotated])
qed

lemma py_percent_bounds:
  assumes "a \<le> b" and "0 < b"
  shows "0 \<le> py_percent a b \<and> py_percent a b \<le> 100
     \<and> \<bar>py_percent a b - 100 * (of_nat a / of_nat b)\<bar> \<le> 200 / 2 ^ 53"
proof -
  define q :: rat where "q = of_nat a / of_nat b"
  define r where "r = binary64 q"
  define p where "p = binary64 (r * 100)"
  have pp: "py_percent a b = p" by (simp add: py_percent_def p_def r_def q_def)
  have q0: "0 \<le> q" by (simp add: q_def)
  have q1: "q \<le> 1" using assms by (simp add: q_def)
  have r0: "0 \<le> r" unfolding r_def using q0 by (rule binary64_nonneg)
  have "q \<le> of_int 1" using q1 by simp
  moreover have "q < 2 powi (0 + 1)" using q1 by simp
  ultimately have "r \<le> of_int 1" unfolding r_def using q0 by (intro binary64_le_int [where e = 0]) simp_all
  then have r1: "r \<le> 1" by simp
  have h0: "0 \<le> r * 100" using r0 by simp
  have p0: "0 \<le> p" unfolding p_def using h0 by (rule binary64_nonneg)
  have "r * 100 \<le> of_int 100" using r1 by simp
  moreover have "r * 100 < 2 powi (6 + 1)" using r1 by simp
  ultimately have "p \<le> of_int 100" unfolding p_def using h0 by (intro binary64_le_int [where e = 6]) simp_all
  then have p1: "p \<le> 100" by simp
  have e1: "\<bar>r - q\<bar> \<le> q / 2 ^ 53" unfolding r_def using q0 by (rule binary64_error0)
  have e2: "\<bar>p - r * 100\<bar> \<le> r * 100 / 2 ^ 53" unfolding p_def using h0 by (rule binary64_error0)
  have "\<bar>p - 100 * q\<bar> \<le> 200 / 2 ^ 53" using e1 e2 q1 r1 by (rule compose_error) simp
  then show ?thesis using p0 p1 unfolding pp q_def by simp
qed

section \<open>Claims about the coverage\<close>

text \<open>
  The coverage is printed with one decimal: \<open>one_decimal t\<close> is the printed form of
  \<open>t\<close> tenths of a percent. As a ratio, \<open>t / 1000\<close> is within the rounding of the print
  (half a tenth of a percent) and of the two float operations of the matched count over the
  spreadsheet count.
\<close>

lemma tenths_bounds:
  assumes "a \<le> b" and "0 < b"
  defines "t \<equiv> nat (round_half_even (py_percent a b * 10))"
  shows "t \<le> 1000
     \<and> \<bar>of_nat t / 1000 - (of_nat a :: rat) / of_nat b\<bar> \<le> 1 / 2000 + 1 / 10 ^ 15"
proof -
  define p where "p = py_percent a b"
  define q :: rat where "q = of_nat a / of_nat b"
  define z where "z = round_half_even (p * 10)"
  from py_percent_bounds [OF assms(1,2)] have p0: "0 \<le> p" and p1: "p \<le> 100"
    and pe: "\<bar>p - 100 * q\<bar> \<le> 200 / 2 ^ 53"
    by (simp_all add: p_def q_def)
  have "0 \<le> p * 10" using p0 by simp
  then have z0: "0 \<le> z" unfolding z_def by (rule round_half_even_nonneg)
  have "p * 10 \<le> of_int 1000" using p1 by simp
  then have z1: "z \<le> 1000" unfolding z_def by (rule round_half_even_le)
  have t: "t = nat z" by (simp add: t_def z_def p_def)
  have tz: "(of_nat t :: rat) = of_int z" using z0 by (simp add: t)
  have ze: "\<bar>of_int z - p * 10\<bar> \<le> 1 / 2" unfolding z_def by (rule round_half_even_error)
  have s: "(200::rat) / 2 ^ 53 \<le> 100 / 10 ^ 15" by simp
  have "of_int z / 1000 - q = (of_int z - p * 10) / 1000 + (p - 100 * q) / 100"
    by (simp add: field_simps)
  then have "\<bar>of_int z / 1000 - q\<bar> \<le> \<bar>(of_int z - p * 10) / 1000\<bar> + \<bar>(p - 100 * q) / 100\<bar>"
    by (simp only: abs_triangle_ineq)
  also have "\<bar>(of_int z - p * 10) / 1000\<bar> = \<bar>of_int z - p * 10\<bar> / 1000" by simp
  also have "\<bar>(p - 100 * q) / 100\<bar> = \<bar>p - 100 * q\<bar> / 100" by simp
  finally have tri: "\<bar>of_int z / 1000 - q\<bar> \<le> \<bar>of_int z - p * 10\<bar> / 1000 + \<bar>p - 100 * q\<bar> / 100" .
  have a1: "\<bar>of_int z - p * 10\<bar> / 1000 \<le> 1 / 2000" using ze by simp
  have a2: "\<bar>p - 100 * q\<bar> / 100 \<le> 1 / 10 ^ 15" using pe s by simp
  have "\<bar>of_int z / 1000 - q\<bar> \<le> 1 / 2000 + 1 / 10 ^ 15"
    using tri add_mono [OF a1 a2] by (rule order_trans)
  moreover have "t \<le> 1000" using z1 z0 by (simp add: t)
  ultimately show ?thesis by (simp add: tz q_def)
qed

text \<open>
  Claim C2 says that the coverage ratio equals the number of matched identifiers over the
  number of spreadsheet identifiers, and 1.0 when the spreadsheet has no identifier. For an
  empty spreadsheet \<open>compare-excel-system.py\<close> reports \<open>0%\<close>, by its guard
  \<open>if excel_articles else "0%"\<close>, and \<open>check-missing-correct.py\<close> divides by zero. For
  one identifier matched out of three both scripts report \<open>33.3%\<close>, the quotient printed
  with the format \<open>:.1f\<close>, which as a ratio is 333/1000 and not 1/3.
\<close>

theorem C2_coverage_counterexample:
  "coverage_compare [] {''A1''} = ''0%''
   \<and> coverage_correct {} {''A1''} = Inl ZeroDivisionError
   \<and> coverage_compare [''A1'', ''B2'', ''C3''] {''A1''} = ''33.3%''
   \<and> coverage_correct {''A1'', ''B2'', ''C3''} {''A1''} = Inr ''33.3%''
   \<and> (333::rat) / 1000 \<noteq> 1 / 3"
proof -
  have 1: "coverage_compare [] {''A1''} = ''0%''" by (simp add: coverage_compare_def)
  have 2: "coverage_correct {} {''A1''} = Inl ZeroDivisionError" by (simp add: coverage_correct_def)
  have f: "format_1f (py_percent (Suc 0) 3) = ''33.3''" by code_simp
  have n: "Suc (Suc (Suc 0)) = 3" by simp
  have 3: "coverage_compare [''A1'', ''B2'', ''C3''] {''A1''} = ''33.3%''"
    by (simp add: coverage_compare_def n f)
  have i: "found {''A1'', ''B2'', ''C3''} {''A1''} = {''A1''}" by (auto simp: found_def)
  have 4: "coverage_correct {''A1'', ''B2'', ''C3''} {''A1''} = Inr ''33.3%''"
    by (simp add: coverage_correct_def i n f)
  from 1 2 3 4 show ?thesis by simp
qed

text \<open>
  Claim C2, as the scripts have it. For the spreadsheet identifiers \<open>S\<close> (the keys of a
  dictionary, so without duplicates) and the catalog identifiers \<open>C\<close>: when \<open>S\<close> is not
  empty both scripts report the same text, a percentage with one decimal, of some number
  \<open>t\<close> of tenths of a percent; the ratio \<open>t / 1000\<close> lies between 0 and 1 and differs
  from the number of matched identifiers over the number of identifiers of \<open>S\<close> by at
  most 1/2000 + 1/10^15. When \<open>S\<close> is empty \<open>compare-excel-system.py\<close> reports \<open>0%\<close>.
\<close>

theorem C2_coverage:
  assumes "distinct excel_articles"
  shows "(excel_articles \<noteq> [] \<longrightarrow>
          (\<exists>t. coverage_compare excel_articles C = one_decimal t @ ''%''
             \<and> coverage_correct (set excel_articles) C = Inr (one_decimal t @ ''%'')
             \<and> 0 \<le> (of_nat t :: rat) / 1000 \<and> (of_nat t :: rat) / 1000 \<le> 1
             \<and> \<bar>of_nat t / 1000
                  - (of_nat (card (set excel_articles \<inter> C)) :: rat) / of_nat (card (set excel_articles))\<bar>
                 \<le> 1 / 2000 + 1 / 10 ^ 15))
     \<and> (excel_articles = [] \<longrightarrow> coverage_compare excel_articles C = ''0%'')"
proof -
  let ?m = "card (set excel_articles \<inter> C)" and ?n = "card (set excel_articles)"
  have n: "length excel_articles = ?n" using assms by (simp add: distinct_card)
  have f: "length (snd (compare_articles excel_articles C)) = ?m"
    using assms by (rule length_found_card)
  have le: "?m \<le> ?n" by (simp add: card_mono)
  have z: "excel_articles = [] \<Longrightarrow> coverage_compare excel_articles C = ''0%''"
    by (simp add: coverage_compare_def)
  have nz: "\<exists>t. coverage_compare excel_articles C = one_decimal t @ ''%''
             \<and> coverage_correct (set excel_articles) C = Inr (one_decimal t @ ''%'')
             \<and> 0 \<le> (of_nat t :: rat) / 1000 \<and> (of_nat t :: rat) / 1000 \<le> 1
             \<and> \<bar>of_nat t / 1000 - (of_nat ?m :: rat) / of_nat ?n\<bar> \<le> 1 / 2000 + 1 / 10 ^ 15"
    if ne: "excel_articles \<noteq> []"
  proof -
    have pos: "0 < ?n" using ne by (simp add: card_gt_0_iff)
    define t where "t = nat (round_half_even (py_percent ?m ?n * 10))"
    from tenths_bounds [OF le pos] have b: "t \<le> 1000"
      and e: "\<bar>of_nat t / 1000 - (of_nat ?m :: rat) / of_nat ?n\<bar> \<le> 1 / 2000 + 1 / 10 ^ 15"
      by (simp_all add: t_def)
    have c1: "coverage_compare excel_articles C = one_decimal t @ ''%''"
      using ne by (simp add: coverage_compare_def case_prod_beta f n format_1f_def t_def)
    have c2: "coverage_correct (set excel_articles) C = Inr (one_decimal t @ ''%'')"
      using pos ne by (simp add: coverage_correct_def found_def format_1f_def t_def)
    have r: "0 \<le> (of_nat t :: rat) / 1000 \<and> (of_nat t :: rat) / 1000 \<le> 1" using b by simp
    from c1 c2 r e show ?thesis by blast
  qed
  from z nz show ?thesis by blast
qed

text \<open>
  The theorem at four spreadsheet identifiers of which one is in the catalog, where both
  scripts report \<open>25.0%\<close>, and at the empty spreadsheet.
\<close>

theorem C2_coverage_witness:
  "distinct [''A1'', ''B2'', ''C3'', ''D4'']
   \<and> coverage_compare [''A1'', ''B2'', ''C3'', ''D4''] {''A1'', ''Z9''} = ''25.0%''
   \<and> coverage_correct (set [''A1'', ''B2'', ''C3'', ''D4'']) {''A1'', ''Z9''} = Inr ''25.0%''
   \<and> one_decimal 250 @ ''%'' = ''25.0%''
   \<and> \<bar>(250::rat) / 1000 - 1 / 4\<bar> \<le> 1 / 2000 + 1 / 10 ^ 15
   \<and> distinct ([] :: string list)
   \<and> coverage_compare [] {''A1'', ''Z9''} = ''0%''"
proof -
  let ?k = "[''A1'', ''B2'', ''C3'', ''D4'']"
  have h: "distinct ?k" by simp
  have ne: "?k \<noteq> []" by simp
  have e: "distinct ([] :: string list)" by simp
  have d: "one_decimal 250 @ ''%'' = ''25.0%''" by code_simp
  from C2_coverage [OF h, of "{''A1'', ''Z9''}"] ne
  obtain t where c1: "coverage_compare ?k {''A1'', ''Z9''} = one_decimal t @ ''%''"
    and c2: "coverage_correct (set ?k) {''A1'', ''Z9''} = Inr (one_decimal t @ ''%'')"
    by blast
  have f: "format_1f (py_percent (Suc 0) 4) = ''25.0''" by code_simp
  have n: "Suc (Suc (Suc (Suc 0))) = 4" by simp
  have v: "coverage_compare ?k {''A1'', ''Z9''} = ''25.0%''"
    by (simp add: coverage_compare_def n f)
  from c1 c2 v have a: "coverage_correct (set ?k) {''A1'', ''Z9''} = Inr ''25.0%''" by simp
  from C2_coverage [OF e, of "{''A1'', ''Z9''}"]
  have b: "coverage_compare [] {''A1'', ''Z9''} = ''0%''" by simp
  from h v a d b show ?thesis by simp
qed

section \<open>Claims about the identifier extraction\<close>

lemma strip_A1: "strip ''A1'' = ''A1''" by code_simp
lemma strip_B2: "strip '' B2'' = ''B2''" by code_simp
lemma strip_nan: "strip '' nan '' = ''nan''" by code_simp
lemma strip_blank: "strip ''   '' = ''''" by code_simp

text \<open>
  Claim C9 says that the extractor counts and reports the number of skipped rows. The scripts
  keep no such count: they print the number of rows and the number of unique identifiers.
  Two columns of two rows each, one with a repeated identifier and no skipped row, one with
  a skipped row, give the same set and the same two numbers.
\<close>

theorem C9_skipped_rows_counterexample:
  "extract_excel_articles [Val ''A1'', Val ''A1''] = extract_excel_articles [Val ''A1'', NA]
   \<and> extraction_report [Val ''A1'', Val ''A1''] = extraction_report [Val ''A1'', NA]
   \<and> spec_skipped_rows [Val ''A1'', Val ''A1''] = 0
   \<and> spec_skipped_rows [Val ''A1'', NA] = 1"
  by (simp add: extract_excel_articles_def extraction_report_def spec_skipped_rows_def strip_A1)

text \<open>
  Claim C9, as the scripts have it. A row whose identifier cell is absent, blank after
  trimming, or the text \<open>nan\<close> is skipped: the returned set is the same with or without
  the row, and it holds exactly the trimmed identifiers of the other rows. The loop of
  \<open>check-missing-correct.py\<close> has no operation that raises; the loop of
  \<open>compare-excel-system.py\<close> returns, for rows that all have the identifier column, a
  dictionary with the same keys. What is reported is the number of rows and the number of
  unique identifiers, not the number of skipped rows.
\<close>

theorem C9_unusable_rows_skipped:
  assumes "unusable c"
    and "\<forall>r \<in> set rows. map_of r article_column \<noteq> None"
  shows "extract_excel_articles (before @ c # after) = extract_excel_articles (before @ after)
     \<and> extract_excel_articles column
         = {strip v |v. Val v \<in> set column \<and> \<not> unusable (Val v)}
     \<and> extraction_report column = (length column, card (extract_excel_articles column))
     \<and> (\<exists>excel_articles. extract_compare article_column rows = Inr excel_articles
         \<and> fst ` set excel_articles
            = extract_excel_articles (map (\<lambda>r. the (map_of r article_column)) rows))"
proof -
  have "extract_excel_articles (before @ c # after) = extract_excel_articles (before @ after)"
    using assms(1) by (simp add: extract_excel_articles_def add_article_unusable)
  moreover have "extract_excel_articles column
         = {strip v |v. Val v \<in> set column \<and> \<not> unusable (Val v)}"
    by (simp add: extract_excel_articles_eq)
  moreover have "extraction_report column = (length column, card (extract_excel_articles column))"
    by (simp add: extraction_report_def)
  moreover note extract_compare_keys [OF assms(2)]
  ultimately show ?thesis by blast
qed

text \<open>The theorem at three rows whose second row holds \<open>nan\<close>.\<close>

theorem C9_unusable_rows_skipped_witness:
  "unusable (Val '' nan '') \<and> unusable (Val ''   '') \<and> unusable NA
   \<and> map (\<lambda>r. map_of r ''Artikel'')
        [[(''Artikel'', Val ''A1''), (''Preis'', Val ''12,50'')],
         [(''Artikel'', Val '' nan ''), (''Preis'', NA)],
         [(''Artikel'', Val '' B2''), (''Preis'', NA)]]
      = [Some (Val ''A1''), Some (Val '' nan ''), Some (Val '' B2'')]
   \<and> extract_excel_articles [Val ''A1'', Val '' nan '', Val '' B2'']
       = extract_excel_articles [Val ''A1'', Val '' B2'']
   \<and> extract_excel_articles [Val ''A1'', Val '' B2''] = {''A1'', ''B2''}
   \<and> (\<exists>excel_articles. extract_compare ''Artikel''
        [[(''Artikel'', Val ''A1''), (''Preis'', Val ''12,50'')],
         [(''Artikel'', Val '' nan ''), (''Preis'', NA)],
         [(''Artikel'', Val '' B2''), (''Preis'', NA)]] = Inr excel_articles
       \<and> fst ` set excel_articles = {''A1'', ''B2''})"
proof -
  let ?rows = "[[(''Artikel'', Val ''A1''), (''Preis'', Val ''12,50'')],
         [(''Artikel'', Val '' nan ''), (''Preis'', NA)],
         [(''Artikel'', Val '' B2''), (''Preis'', NA)]]"
  have h: "unusable (Val '' nan '')" by (simp add: strip_nan)
  have h2: "\<forall>r \<in> set ?rows. map_of r ''Artikel'' \<noteq> None" by simp
  have e: "extract_excel_articles [Val ''A1'', Val '' B2''] = {''A1'', ''B2''}"
    by (auto simp: extract_excel_articles_def strip_A1 strip_B2)
  have m: "map (\<lambda>r. the (map_of r ''Artikel'')) ?rows = [Val ''A1'', Val '' nan '', Val '' B2'']"
    by simp
  note T = C9_unusable_rows_skipped [OF h h2, of "[Val ''A1'']" "[Val '' B2'']" "[]"]
  from T have t1: "extract_excel_articles ([Val ''A1''] @ Val '' nan '' # [Val '' B2''])
       = extract_excel_articles ([Val ''A1''] @ [Val '' B2''])" by (rule conjunct1)
  from T have t2: "\<exists>excel_articles. extract_compare ''Artikel'' ?rows = Inr excel_articles
         \<and> fst ` set excel_articles
            = extract_excel_articles (map (\<lambda>r. the (map_of r ''Artikel'')) ?rows)"
    by (rule conjunct2 [THEN conjunct2, THEN conjunct2])
  from t1 e have t3: "extract_excel_articles [Val ''A1'', Val '' nan '', Val '' B2''] = {''A1'', ''B2''}"
    by simp
  from t2 have t4: "\<exists>excel_articles. extract_compare ''Artikel'' ?rows = Inr excel_articles
       \<and> fst ` set excel_articles = {''A1'', ''B2''}"
    unfolding m t3 .
  have u: "unusable (Val ''   '')" by (simp add: strip_blank)
  from h u t1 e t4 show ?thesis by simp
qed

section \<open>Properties of the price classification\<close>

lemma classify_counts:
  assumes "classify st art p1 p2 p3 p4 = Inr (st1, art1)"
  shows "single_price st1 + tiered_price st1 + auf_anfrage st1
           = single_price st + tiered_price st + auf_anfrage st + 1
       \<and> needs_tier_quantities st1 + tiered_price st = needs_tier_quantities st + tiered_price st1"
  using assms
  by (auto simp: classify_def tiered_branch_def Let_def split: if_splits sum.splits bool.splits)

lemma process_row_counts:
  assumes "process_row st row = Inr (st1, art1)"
  shows "single_price st1 + tiered_price st1 + auf_anfrage st1
           = single_price st + tiered_price st + auf_anfrage st + 1
       \<and> needs_tier_quantities st1 + tiered_price st = needs_tier_quantities st + tiered_price st1"
proof -
  from assms obtain art0 where
    "classify st (new_article row) (to_float (Preis_1 row)) (to_float (Preis_2 row))
       (to_float (Preis_3 row)) (to_float (Preis_4 row)) = Inr (st1, art0)"
    by (auto simp: process_row_def split: sum.splits)
  then show ?thesis by (rule classify_counts)
qed

lemma process_rows_counts:
  assumes "process_rows st arts rows = Inr (st1, arts1)"
  shows "single_price st1 + tiered_price st1 + auf_anfrage st1
           = single_price st + tiered_price st + auf_anfrage st + length rows
       \<and> needs_tier_quantities st1 + tiered_price st = needs_tier_quantities st + tiered_price st1
       \<and> length arts1 = length arts + length rows"
  using assms
proof (induction rows arbitrary: st arts)
  case Nil
  then show ?case by simp
next
  case (Cons row rows)
  from Cons.prems obtain st2 art where
    r: "process_row st row = Inr (st2, art)" and
    rs: "process_rows st2 (arts @ [art]) rows = Inr (st1, arts1)"
    by (auto split: sum.splits)
  from process_row_counts [OF r] Cons.IH [OF rs] show ?case by simp
qed

lemma float_gt0_not_zero: "float_gt0 x \<Longrightarrow> \<not> float_eq x (Fin 0)"
  by (cases x) auto

lemma collect_tiers_Num:
  "collect_tiers (Num x1) (Num x2) (Num x3) (Num x4) =
     Inr (map (\<lambda>(p, previous). \<lparr>quantity = None, tier_price = Num p\<rparr>)
            (filter (\<lambda>(p, previous). float_gt0 p \<and> \<not> float_eq p previous)
               [(x2, x1), (x3, x2), (x4, x3)]))"
  by (simp add: collect_tiers_def add_tier_def)

lemma classify_tiered:
  assumes "float_gt0 x2 \<or> float_gt0 x3 \<or> float_gt0 x4"
  shows "classify st art (Num x1) (Num x2) (Num x3) (Num x4)
           = tiered_branch st art (Num x1) (Num x2) (Num x3) (Num x4)"
proof -
  have c0: "(Num x1 = AufAnfrage
      \<or> (is_zero (Num x1) \<and> is_zero (Num x2) \<and> is_zero (Num x3) \<and> is_zero (Num x4))) = False"
    using assms float_gt0_not_zero by auto
  have o: "py_or (gt_zero (Num x2)) (py_or (gt_zero (Num x3)) (gt_zero (Num x4))) = Inr True"
    using assms by (cases "float_gt0 x2"; cases "float_gt0 x3"; simp)
  show ?thesis unfolding classify_def c0 o by simp
qed

lemma float_eq_gt0: "float_gt0 a \<Longrightarrow> float_eq a b \<Longrightarrow> float_gt0 b \<and> a = b"
  by (cases a; cases b) auto

lemma no_tiers_all_equal:
  assumes "float_gt0 x2 \<or> float_gt0 x3 \<or> float_gt0 x4"
    and "filter (\<lambda>(p, previous). float_gt0 p \<and> \<not> float_eq p previous)
           [(x2, x1), (x3, x2), (x4, x3)] = []"
  shows "float_gt0 x1 \<and> x2 = x1"
proof -
  from assms(2) have e2: "float_gt0 x2 \<longrightarrow> float_eq x2 x1"
    and e3: "float_gt0 x3 \<longrightarrow> float_eq x3 x2" and e4: "float_gt0 x4 \<longrightarrow> float_eq x4 x3"
    by (auto split: if_splits)
  have p2: "float_gt0 x2"
  proof (rule ccontr)
    assume n2: "\<not> float_gt0 x2"
    show False
    proof (cases "float_gt0 x3")
      case True
      with e3 float_eq_gt0 have "float_gt0 x2" by blast
      with n2 show False by simp
    next
      case False
      with n2 assms(1) have "float_gt0 x4" by simp
      with e4 float_eq_gt0 have "float_gt0 x3" by blast
      with False show False by simp
    qed
  qed
  with e2 float_eq_gt0 show ?thesis by blast
qed

lemma classify_raises_on_text_in_later_field:
  assumes "p1 \<noteq> AufAnfrage"
  shows "classify st art p1 AufAnfrage p3 p4 = Inl TypeError"
  using assms by (simp add: classify_def)

lemma classify_total_on_numbers:
  "\<exists>r. classify st art (Num x1) (Num x2) (Num x3) (Num x4) = Inr r"
  by (simp add: classify_def tiered_branch_def collect_tiers_Num Let_def
        split: sum.splits bool.splits del: list.map filter.simps)
     (cases "float_gt0 x2"; cases "float_gt0 x3"; cases "float_gt0 x4"; simp)

lemma replace_single: "replace [a] [b] s = map (\<lambda>c. if c = a then b else c) s"
  by (induction s) auto

lemma map_fixes_pattern:
  assumes "map f m' = m" and "\<forall>c. f c \<in> set m \<longrightarrow> f c = c"
  shows "m' = m"
proof -
  have "map f m' = m'"
  proof (rule map_idI)
    fix c assume "c \<in> set m'"
    then have "f c \<in> set m" using assms(1) by auto
    with assms(2) show "f c = c" by blast
  qed
  with assms(1) show ?thesis by simp
qed

lemma sublist_map_iff:
  assumes "\<forall>c. f c \<in> set m \<longrightarrow> f c = c" and "map f m = m"
  shows "sublist m (map f s) \<longleftrightarrow> sublist m s"
proof
  assume "sublist m (map f s)"
  then obtain ps ss where "map f s = ps @ m @ ss" by (auto simp: sublist_def)
  then obtain ps' r where s: "s = ps' @ r" and "map f r = m @ ss"
    by (metis map_eq_append_conv)
  then obtain m' ss' where r: "r = m' @ ss'" and mm: "map f m' = m"
    by (metis map_eq_append_conv)
  from mm assms(1) have "m' = m" by (rule map_fixes_pattern)
  with s r show "sublist m s" by (auto simp: sublist_def)
next
  assume "sublist m s"
  then obtain ps ss where "s = ps @ m @ ss" by (auto simp: sublist_def)
  then have "map f s = map f ps @ m @ map f ss" using assms(2) by simp
  then show "sublist m (map f s)" by (metis sublist_appendI)
qed

lemma to_float_comma:
  "to_float (Text (replace '','' ''.'' s)) = to_float (Text s)"
proof -
  let ?f = "\<lambda>c. if c = CHR '','' then CHR ''.'' else c"
  have r: "replace '','' ''.'' s = map ?f s" by (rule replace_single)
  have rr: "replace '','' ''.'' (map ?f s) = map ?f s"
    by (simp add: replace_single)
  have a: "sublist ''Auf Anfrage'' (map ?f s) \<longleftrightarrow> sublist ''Auf Anfrage'' s"
    by (rule sublist_map_iff) auto
  have b: "sublist ''auf Anfrage'' (map ?f s) \<longleftrightarrow> sublist ''auf Anfrage'' s"
    by (rule sublist_map_iff) auto
  show ?thesis unfolding r to_float.simps a b rr ..
qed

lemma to_float_12_50: "to_float (Text (''12,50 '' @ euro)) = Num (Fin (25 / 2))"
  by code_simp

section \<open>Claims about the price classification\<close>

text \<open>
  Claim C3 says that the classification raises for no combination of text, blank and
  numeric price fields. The script raises \<open>TypeError\<close> on a row whose first price is the
  number 10 and whose second price is the text \<open>Auf Anfrage\<close>: the first test of the chain
  (line 107) is false, and the second (line 113) compares the string that \<open>to_float\<close>
  returned with 0.
\<close>

theorem C3_classification_raises:
  "process_row initial_stats
     \<lparr>Artikelnummer = ''A1'', Matchcode = ''Kiste'', Beschreibung = ''Holzkiste'',
      Preis_1 = Number (Fin 10), Preis_2 = Text ''Auf Anfrage'', Preis_3 = Missing,
      Preis_4 = Missing, Einheit = ''Stk''\<rparr> = Inl TypeError"
  by code_simp

text \<open>
  Claim C4 speaks of every record of which the second, third or fourth price is positive.
  The first branch of the chain comes first: a record whose first price is the text
  \<open>Auf Anfrage\<close> and whose second price is 15 gets the price 0, no tier list and keeps
  the verification flag.
\<close>

theorem C4_tiered_prices_counterexample:
  "to_float (Text ''Auf Anfrage'') = AufAnfrage
   \<and> to_float (Number (Fin 15)) = Num (Fin 15) \<and> float_gt0 (Fin 15)
   \<and> process_row initial_stats
       \<lparr>Artikelnummer = ''A1'', Matchcode = ''Kiste'', Beschreibung = ''Holzkiste'',
        Preis_1 = Text ''Auf Anfrage'', Preis_2 = Number (Fin 15), Preis_3 = Missing,
        Preis_4 = Missing, Einheit = ''Stk''\<rparr>
     = Inr (\<lparr>single_price = 0, tiered_price = 0, auf_anfrage = 1, needs_tier_quantities = 0\<rparr>,
            \<lparr>import_articleNumber = ''A1'', import_productName = ''Kiste'',
             description = ''Holzkiste'', currency = ''EUR'',
             sourceUrl = ''https://shop.firmenich.de'', category = ''FROM_EXCEL'',
             published = True, verified = True, ocrConfidence = 1,
             price = Some (Num (Fin 0)), tieredPricesText = Some ''Auf Anfrage'',
             tieredPrices = None, manufacturer = None, ean = Some ''Stk''\<rparr>)"
  by code_simp

text \<open>
  Claim C4, for the records that reach the second branch: the four price fields coerce to
  numbers (so the first is not the on-request text) and the second, third or fourth is
  positive. The base price is the first price if it is positive, else the second. The tier
  list holds, in order, each of the second, third and fourth prices that is positive and
  differs from the price field before it. If the list is not empty the record carries it,
  is not verified and is marked \<open>NEEDS_TIER_QUANTITIES\<close>, and the tiered and the
  tier-quantity counters grow by one; if it is empty the record has no tier list, stays
  verified, has the first price, and the single-price counter grows by one.
\<close>

theorem C4_tiered_prices:
  assumes "to_float (Preis_1 row) = Num x1" and "to_float (Preis_2 row) = Num x2"
    and "to_float (Preis_3 row) = Num x3" and "to_float (Preis_4 row) = Num x4"
    and "float_gt0 x2 \<or> float_gt0 x3 \<or> float_gt0 x4"
  shows "\<exists>st1 art. process_row st row = Inr (st1, art)
      \<and> price art = Some (Num (if float_gt0 x1 then x1 else x2))
      \<and> (let tiers = map (\<lambda>(p, previous). \<lparr>quantity = None, tier_price = Num p\<rparr>)
                        (filter (\<lambda>(p, previous). float_gt0 p \<and> \<not> float_eq p previous)
                           [(x2, x1), (x3, x2), (x4, x3)])
          in if tiers \<noteq> []
             then tieredPrices art = Some tiers \<and> verified art = False
                \<and> manufacturer art = Some ''NEEDS_TIER_QUANTITIES''
                \<and> st1 = st\<lparr>tiered_price := tiered_price st + 1,
                            needs_tier_quantities := needs_tier_quantities st + 1\<rparr>
             else tieredPrices art = None \<and> verified art = True \<and> manufacturer art = None
                \<and> price art = Some (Num x1)
                \<and> st1 = st\<lparr>single_price := single_price st + 1\<rparr>)"
proof -
  define tiers where "tiers = map (\<lambda>(p, previous). \<lparr>quantity = None, tier_price = Num p\<rparr>)
                        (filter (\<lambda>(p, previous). float_gt0 p \<and> \<not> float_eq p previous)
                           [(x2, x1), (x3, x2), (x4, x3)])"
  define base where "base = (new_article row)\<lparr>price := Some (Num (if float_gt0 x1 then x1 else x2))\<rparr>"
  define fin where "fin a = (if Einheit row \<noteq> [] \<and> Einheit row \<noteq> ''nan''
                    then a\<lparr>ean := Some (Einheit row)\<rparr> else a)" for a :: article
  have fin_fields: "price (fin a) = price a \<and> tieredPrices (fin a) = tieredPrices a
      \<and> verified (fin a) = verified a \<and> manufacturer (fin a) = manufacturer a" for a
    by (simp add: fin_def)
  have base_fields: "price base = Some (Num (if float_gt0 x1 then x1 else x2))
      \<and> tieredPrices base = None \<and> verified base = True \<and> manufacturer base = None"
    by (simp add: base_def new_article_def)
  have c: "classify st (new_article row) (Num x1) (Num x2) (Num x3) (Num x4)
      = tiered_branch st (new_article row) (Num x1) (Num x2) (Num x3) (Num x4)"
    using assms(5) by (rule classify_tiered)
  have t: "collect_tiers (Num x1) (Num x2) (Num x3) (Num x4) = Inr tiers"
    unfolding tiers_def by (rule collect_tiers_Num)
  have b: "(new_article row)\<lparr>price := Some (if float_gt0 x1 then Num x1 else Num x2)\<rparr> = base"
    by (simp add: base_def)
  have tb: "tiered_branch st (new_article row) (Num x1) (Num x2) (Num x3) (Num x4)
      = (if tiers \<noteq> []
         then Inr (st\<lparr>tiered_price := tiered_price st + 1,
                      needs_tier_quantities := needs_tier_quantities st + 1\<rparr>,
                   base\<lparr>tieredPrices := Some tiers, verified := False,
                        manufacturer := Some ''NEEDS_TIER_QUANTITIES''\<rparr>)
         else Inr (st\<lparr>single_price := single_price st + 1\<rparr>, base))"
    unfolding tiered_branch_def t by (simp add: Let_def b)
  have pr: "process_row st row
      = (if tiers \<noteq> []
         then Inr (st\<lparr>tiered_price := tiered_price st + 1,
                      needs_tier_quantities := needs_tier_quantities st + 1\<rparr>,
                   fin (base\<lparr>tieredPrices := Some tiers, verified := False,
                             manufacturer := Some ''NEEDS_TIER_QUANTITIES''\<rparr>))
         else Inr (st\<lparr>single_price := single_price st + 1\<rparr>, fin base))"
    unfolding process_row_def assms(1-4) c tb fin_def by simp
  show ?thesis
  proof (cases "tiers = []")
    case True
    then have "filter (\<lambda>(p, previous). float_gt0 p \<and> \<not> float_eq p previous)
                 [(x2, x1), (x3, x2), (x4, x3)] = []"
      unfolding tiers_def by (simp only: map_is_Nil_conv)
    then have "float_gt0 x1 \<and> x2 = x1"
      by (rule no_tiers_all_equal [OF assms(5)])
    then have p1: "price base = Some (Num x1)" using base_fields by simp
    from True have r: "process_row st row = Inr (st\<lparr>single_price := single_price st + 1\<rparr>, fin base)"
      by (simp only: pr not_True_eq_False if_False simp_thms)
    have "process_row st row = Inr (st\<lparr>single_price := single_price st + 1\<rparr>, fin base)
      \<and> price (fin base) = Some (Num (if float_gt0 x1 then x1 else x2))
      \<and> (tieredPrices (fin base) = None \<and> verified (fin base) = True
          \<and> manufacturer (fin base) = None \<and> price (fin base) = Some (Num x1)
          \<and> st\<lparr>single_price := single_price st + 1\<rparr> = st\<lparr>single_price := single_price st + 1\<rparr>)"
      using r fin_fields [of base] base_fields p1 by (simp only: simp_thms)
    then show ?thesis
      unfolding Let_def tiers_def [symmetric] using True
      by (simp only: simp_thms if_False) blast
  next
    case False
    let ?a = "base\<lparr>tieredPrices := Some tiers, verified := False,
                       manufacturer := Some ''NEEDS_TIER_QUANTITIES''\<rparr>"
    let ?s = "st\<lparr>tiered_price := tiered_price st + 1,
                needs_tier_quantities := needs_tier_quantities st + 1\<rparr>"
    from False have r: "process_row st row = Inr (?s, fin ?a)"
      by (simp only: pr if_True simp_thms)
    have af: "price ?a = Some (Num (if float_gt0 x1 then x1 else x2))
       \<and> tieredPrices ?a = Some tiers \<and> verified ?a = False
       \<and> manufacturer ?a = Some ''NEEDS_TIER_QUANTITIES''"
      using base_fields by simp
    have "process_row st row = Inr (?s, fin ?a)
      \<and> price (fin ?a) = Some (Num (if float_gt0 x1 then x1 else x2))
      \<and> (tieredPrices (fin ?a) = Some tiers \<and> verified (fin ?a) = False
          \<and> manufacturer (fin ?a) = Some ''NEEDS_TIER_QUANTITIES'' \<and> ?s = ?s)"
      using r fin_fields [of ?a] af by (simp only: simp_thms)
    then show ?thesis
      unfolding Let_def tiers_def [symmetric] using False
      by (simp only: simp_thms if_True) blast
  qed
qed

text \<open>
  The theorem at the prices 10, 15, 15 and 0 (one tier of 15, base price 10) and at the
  prices 10, 10, 10 and 0 (no tier, single price 10).
\<close>

theorem C4_tiered_prices_witness:
  "to_float (Number (Fin 10)) = Num (Fin 10) \<and> to_float (Number (Fin 15)) = Num (Fin 15)
   \<and> to_float (Number (Fin 0)) = Num (Fin 0) \<and> float_gt0 (Fin 15) \<and> float_gt0 (Fin 10)
   \<and> (\<exists>art. process_row initial_stats
         \<lparr>Artikelnummer = ''A1'', Matchcode = ''Kiste'', Beschreibung = ''Holzkiste'',
          Preis_1 = Number (Fin 10), Preis_2 = Number (Fin 15), Preis_3 = Number (Fin 15),
          Preis_4 = Number (Fin 0), Einheit = ''Stk''\<rparr>
        = Inr (initial_stats\<lparr>tiered_price := tiered_price initial_stats + 1,
                 needs_tier_quantities := needs_tier_quantities initial_stats + 1\<rparr>, art)
      \<and> price art = Some (Num (Fin 10))
      \<and> tieredPrices art = Some [\<lparr>quantity = None, tier_price = Num (Fin 15)\<rparr>]
      \<and> verified art = False
      \<and> manufacturer art = Some ''NEEDS_TIER_QUANTITIES'')
   \<and> (\<exists>art. process_row initial_stats
         \<lparr>Artikelnummer = ''A2'', Matchcode = ''Band'', Beschreibung = ''Klebeband'',
          Preis_1 = Number (Fin 10), Preis_2 = Number (Fin 10), Preis_3 = Number (Fin 10),
          Preis_4 = Number (Fin 0), Einheit = ''Rolle''\<rparr>
        = Inr (initial_stats\<lparr>single_price := single_price initial_stats + 1\<rparr>, art)
      \<and> price art = Some (Num (Fin 10))
      \<and> tieredPrices art = None
      \<and> verified art = True
      \<and> manufacturer art = None)"
proof -
  let ?row = "\<lparr>Artikelnummer = ''A1'', Matchcode = ''Kiste'', Beschreibung = ''Holzkiste'',
          Preis_1 = Number (Fin 10), Preis_2 = Number (Fin 15), Preis_3 = Number (Fin 15),
          Preis_4 = Number (Fin 0), Einheit = ''Stk''\<rparr>"
  let ?row2 = "\<lparr>Artikelnummer = ''A2'', Matchcode = ''Band'', Beschreibung = ''Klebeband'',
          Preis_1 = Number (Fin 10), Preis_2 = Number (Fin 10), Preis_3 = Number (Fin 10),
          Preis_4 = Number (Fin 0), Einheit = ''Rolle''\<rparr>"
  have h1: "to_float (Preis_1 ?row) = Num (Fin 10)" by simp
  have h2: "to_float (Preis_2 ?row) = Num (Fin 15)" by simp
  have h3: "to_float (Preis_3 ?row) = Num (Fin 15)" by simp
  have h4: "to_float (Preis_4 ?row) = Num (Fin 0)" by simp
  have h5: "float_gt0 (Fin 15) \<or> float_gt0 (Fin 15) \<or> float_gt0 (Fin 0)" by simp
  have g1: "to_float (Preis_1 ?row2) = Num (Fin 10)" by simp
  have g2: "to_float (Preis_2 ?row2) = Num (Fin 10)" by simp
  have g3: "to_float (Preis_3 ?row2) = Num (Fin 10)" by simp
  have g4: "to_float (Preis_4 ?row2) = Num (Fin 0)" by simp
  have g5: "float_gt0 (Fin 10) \<or> float_gt0 (Fin 10) \<or> float_gt0 (Fin 0)" by simp
  from C4_tiered_prices [OF h1 h2 h3 h4 h5, of initial_stats]
  have a: "\<exists>art. process_row initial_stats ?row
        = Inr (initial_stats\<lparr>tiered_price := tiered_price initial_stats + 1,
                 needs_tier_quantities := needs_tier_quantities initial_stats + 1\<rparr>, art)
      \<and> price art = Some (Num (Fin 10))
      \<and> tieredPrices art = Some [\<lparr>quantity = None, tier_price = Num (Fin 15)\<rparr>]
      \<and> verified art = False
      \<and> manufacturer art = Some ''NEEDS_TIER_QUANTITIES''"
    by (simp add: Let_def)
  from C4_tiered_prices [OF g1 g2 g3 g4 g5, of initial_stats]
  have b: "\<exists>art. process_row initial_stats ?row2
        = Inr (initial_stats\<lparr>single_price := single_price initial_stats + 1\<rparr>, art)
      \<and> price art = Some (Num (Fin 10))
      \<and> tieredPrices art = None
      \<and> verified art = True
      \<and> manufacturer art = None"
    by (simp add: Let_def) blast
  from a b show ?thesis by simp
qed

text \<open>
  Claim C5 says that a row whose first price is the on-request marker becomes an on-request
  record; the marker is matched without regard to case by the specification. The script
  tests the two spellings \<open>Auf Anfrage\<close> and \<open>auf Anfrage\<close> only: a first price
  \<open>auf anfrage\<close> coerces to 0, and with a second price 15 the row becomes a tiered record
  of price 15, without tier text, with the verification flag false.
\<close>

theorem C5_marker_case_counterexample:
  "to_float (Text ''auf anfrage'') = Num (Fin 0)
   \<and> process_row initial_stats
       \<lparr>Artikelnummer = ''A1'', Matchcode = ''Kiste'', Beschreibung = ''Holzkiste'',
        Preis_1 = Text ''auf anfrage'', Preis_2 = Number (Fin 15), Preis_3 = Missing,
        Preis_4 = Missing, Einheit = ''Stk''\<rparr>
     = Inr (\<lparr>single_price = 0, tiered_price = 1, auf_anfrage = 0, needs_tier_quantities = 1\<rparr>,
            \<lparr>import_articleNumber = ''A1'', import_productName = ''Kiste'',
             description = ''Holzkiste'', currency = ''EUR'',
             sourceUrl = ''https://shop.firmenich.de'', category = ''FROM_EXCEL'',
             published = True, verified = False, ocrConfidence = 1,
             price = Some (Num (Fin 15)), tieredPricesText = None,
             tieredPrices = Some [\<lparr>quantity = None, tier_price = Num (Fin 15)\<rparr>],
             manufacturer = Some ''NEEDS_TIER_QUANTITIES'', ean = Some ''Stk''\<rparr>)"
  by code_simp

text \<open>
  Claim C5, as the script has it. When the first price is a text that contains
  \<open>Auf Anfrage\<close> or \<open>auf Anfrage\<close>, or all four prices coerce to zero, the import record
  has the price 0, the tier text \<open>Auf Anfrage\<close>, no tier list and the verification flag
  true, and the on-request counter grows by one.
\<close>

theorem C5_on_request:
  assumes "(\<exists>val. Preis_1 row = Text val
              \<and> (sublist ''Auf Anfrage'' val \<or> sublist ''auf Anfrage'' val))
     \<or> (is_zero (to_float (Preis_1 row)) \<and> is_zero (to_float (Preis_2 row))
        \<and> is_zero (to_float (Preis_3 row)) \<and> is_zero (to_float (Preis_4 row)))"
  shows "\<exists>art. process_row st row = Inr (st\<lparr>auf_anfrage := auf_anfrage st + 1\<rparr>, art)
      \<and> price art = Some (Num (Fin 0))
      \<and> tieredPricesText art = Some ''Auf Anfrage''
      \<and> tieredPrices art = None
      \<and> verified art = True"
proof -
  define fin where "fin a = (if Einheit row \<noteq> [] \<and> Einheit row \<noteq> ''nan''
                    then a\<lparr>ean := Some (Einheit row)\<rparr> else a)" for a :: article
  let ?a = "(new_article row)\<lparr>price := Some (Num (Fin 0)), tieredPricesText := Some ''Auf Anfrage''\<rparr>"
  have m: "to_float (Preis_1 row) = AufAnfrage"
    if "\<exists>val. Preis_1 row = Text val \<and> (sublist ''Auf Anfrage'' val \<or> sublist ''auf Anfrage'' val)"
    using that by auto
  from assms m have b: "to_float (Preis_1 row) = AufAnfrage
     \<or> (is_zero (to_float (Preis_1 row)) \<and> is_zero (to_float (Preis_2 row))
        \<and> is_zero (to_float (Preis_3 row)) \<and> is_zero (to_float (Preis_4 row)))"
    by blast
  have c: "classify st (new_article row) (to_float (Preis_1 row)) (to_float (Preis_2 row))
             (to_float (Preis_3 row)) (to_float (Preis_4 row))
           = Inr (st\<lparr>auf_anfrage := auf_anfrage st + 1\<rparr>, ?a)"
    using b unfolding classify_def by (simp only: if_True)
  have r: "process_row st row = Inr (st\<lparr>auf_anfrage := auf_anfrage st + 1\<rparr>, fin ?a)"
    unfolding process_row_def c fin_def by simp
  have "price (fin ?a) = Some (Num (Fin 0)) \<and> tieredPricesText (fin ?a) = Some ''Auf Anfrage''
      \<and> tieredPrices (fin ?a) = None \<and> verified (fin ?a) = True"
    by (simp add: fin_def new_article_def)
  with r show ?thesis by blast
qed

text \<open>
  The theorem at a row whose first price is the text \<open>Auf Anfrage\<close> (whatever the other
  three hold), and at a row whose prices are all zero or blank.
\<close>

theorem C5_on_request_witness:
  "sublist ''Auf Anfrage'' ''Auf Anfrage''
   \<and> (\<exists>art. process_row initial_stats
         \<lparr>Artikelnummer = ''A1'', Matchcode = ''Kiste'', Beschreibung = ''Holzkiste'',
          Preis_1 = Text ''Auf Anfrage'', Preis_2 = Number (Fin 15), Preis_3 = Text ''x'',
          Preis_4 = Other, Einheit = ''Stk''\<rparr>
        = Inr (initial_stats\<lparr>auf_anfrage := auf_anfrage initial_stats + 1\<rparr>, art)
      \<and> price art = Some (Num (Fin 0)) \<and> tieredPricesText art = Some ''Auf Anfrage''
      \<and> tieredPrices art = None \<and> verified art = True)
   \<and> is_zero (to_float (Number (Fin 0))) \<and> is_zero (to_float Missing)
   \<and> (\<exists>art. process_row initial_stats
         \<lparr>Artikelnummer = ''A2'', Matchcode = ''Band'', Beschreibung = ''Klebeband'',
          Preis_1 = Number (Fin 0), Preis_2 = Number (Fin 0), Preis_3 = Missing,
          Preis_4 = Missing, Einheit = ''nan''\<rparr>
        = Inr (initial_stats\<lparr>auf_anfrage := auf_anfrage initial_stats + 1\<rparr>, art)
      \<and> price art = Some (Num (Fin 0)) \<and> tieredPricesText art = Some ''Auf Anfrage''
      \<and> tieredPrices art = None \<and> verified art = True)"
proof -
  let ?r1 = "\<lparr>Artikelnummer = ''A1'', Matchcode = ''Kiste'', Beschreibung = ''Holzkiste'',
          Preis_1 = Text ''Auf Anfrage'', Preis_2 = Number (Fin 15), Preis_3 = Text ''x'',
          Preis_4 = Other, Einheit = ''Stk''\<rparr>"
  let ?r2 = "\<lparr>Artikelnummer = ''A2'', Matchcode = ''Band'', Beschreibung = ''Klebeband'',
          Preis_1 = Number (Fin 0), Preis_2 = Number (Fin 0), Preis_3 = Missing,
          Preis_4 = Missing, Einheit = ''nan''\<rparr>"
  have m: "sublist ''Auf Anfrage'' ''Auf Anfrage''" by simp
  have h1: "(\<exists>val. Preis_1 ?r1 = Text val
              \<and> (sublist ''Auf Anfrage'' val \<or> sublist ''auf Anfrage'' val))
     \<or> (is_zero (to_float (Preis_1 ?r1)) \<and> is_zero (to_float (Preis_2 ?r1))
        \<and> is_zero (to_float (Preis_3 ?r1)) \<and> is_zero (to_float (Preis_4 ?r1)))"
    using m by simp
  have h2: "(\<exists>val. Preis_1 ?r2 = Text val
              \<and> (sublist ''Auf Anfrage'' val \<or> sublist ''auf Anfrage'' val))
     \<or> (is_zero (to_float (Preis_1 ?r2)) \<and> is_zero (to_float (Preis_2 ?r2))
        \<and> is_zero (to_float (Preis_3 ?r2)) \<and> is_zero (to_float (Preis_4 ?r2)))"
    by simp
  from C5_on_request [OF h1, of initial_stats] C5_on_request [OF h2, of initial_stats] m
  show ?thesis by simp
qed

text \<open>
  Claim C6 says that the on-request text is matched without regard to case. \<open>to_float\<close>
  looks for the two spellings \<open>Auf Anfrage\<close> and \<open>auf Anfrage\<close> only: the text in
  capitals, and the text in small letters, are read as numbers, fail, and give 0.
\<close>

theorem C6_marker_case_counterexample:
  "to_float (Text ''AUF ANFRAGE'') = Num (Fin 0) \<and> to_float (Text ''auf anfrage'') = Num (Fin 0)
   \<and> Num (Fin 0) \<noteq> AufAnfrage"
  by code_simp

text \<open>
  Claim C6, as the script has it. \<open>to_float\<close> returns a value for every cell. A text
  that contains \<open>Auf Anfrage\<close> or \<open>auf Anfrage\<close> gives the on-request value. A missing
  cell, a not-a-number, an object that is no number, the empty text and every other text
  that \<open>float\<close> rejects give 0. Any other text gives the number that \<open>float\<close> reads
  after commas are replaced by points, the euro sign is removed and the white space at both
  ends is trimmed; any other number gives itself. A comma reads as a decimal point, and the
  text \<open>12,50\<close> followed by a blank and the euro sign gives 12.5.
\<close>

theorem C6_to_float:
  "(sublist ''Auf Anfrage'' s \<or> sublist ''auf Anfrage'' s \<longrightarrow> to_float (Text s) = AufAnfrage)
   \<and> to_float Missing = Num (Fin 0)
   \<and> to_float (Number NaN) = Num (Fin 0)
   \<and> to_float Other = Num (Fin 0)
   \<and> to_float (Text []) = Num (Fin 0)
   \<and> (\<not> sublist ''Auf Anfrage'' s \<and> \<not> sublist ''auf Anfrage'' s
        \<and> py_float (strip (replace euro [] (replace '','' ''.'' s))) = None
      \<longrightarrow> to_float (Text s) = Num (Fin 0))
   \<and> (\<not> sublist ''Auf Anfrage'' s \<and> \<not> sublist ''auf Anfrage'' s
        \<and> py_float (strip (replace euro [] (replace '','' ''.'' s))) = Some x
      \<longrightarrow> to_float (Text s) = Num x)
   \<and> (x \<noteq> NaN \<longrightarrow> to_float (Number x) = Num x)
   \<and> to_float (Text (replace '','' ''.'' s)) = to_float (Text s)
   \<and> to_float (Text (''12,50 '' @ euro)) = Num (Fin (25 / 2))"
proof -
  have e: "to_float (Text []) = Num (Fin 0)" by code_simp
  show ?thesis
    using e to_float_comma [of s] to_float_12_50 by simp
qed

text \<open>The theorem at the texts \<open>Preis auf Anfrage\<close>, \<open>abc\<close> and \<open>7,5\<close> and at the number 3.\<close>

theorem C6_to_float_witness:
  "sublist ''auf Anfrage'' ''Preis auf Anfrage''
   \<and> to_float (Text ''Preis auf Anfrage'') = AufAnfrage
   \<and> py_float (strip (replace euro [] (replace '','' ''.'' ''abc''))) = None
   \<and> to_float (Text ''abc'') = Num (Fin 0)
   \<and> py_float (strip (replace euro [] (replace '','' ''.'' ''7,5''))) = Some (Fin (15 / 2))
   \<and> to_float (Text ''7,5'') = Num (Fin (15 / 2))
   \<and> to_float (Number (Fin 3)) = Num (Fin 3)
   \<and> to_float (Text ''7,5'') = to_float (Text ''7.5'')"
proof -
  have h: "sublist ''auf Anfrage'' ''Preis auf Anfrage''" by code_simp
  have n1: "\<not> sublist ''Auf Anfrage'' ''abc'' \<and> \<not> sublist ''auf Anfrage'' ''abc''
      \<and> py_float (strip (replace euro [] (replace '','' ''.'' ''abc''))) = None"
    by code_simp
  have n2: "\<not> sublist ''Auf Anfrage'' ''7,5'' \<and> \<not> sublist ''auf Anfrage'' ''7,5''
      \<and> py_float (strip (replace euro [] (replace '','' ''.'' ''7,5''))) = Some (Fin (15 / 2))"
    by code_simp
  have r: "replace '','' ''.'' ''7,5'' = ''7.5''" by simp
  from C6_to_float [of "''Preis auf Anfrage''" "Fin 3"] h
  have m: "to_float (Text ''Preis auf Anfrage'') = AufAnfrage"
    and k: "to_float (Number (Fin 3)) = Num (Fin 3)" by blast+
  from C6_to_float [of "''abc''" "Fin 3"] n1
  have a: "to_float (Text ''abc'') = Num (Fin 0)" by blast
  from C6_to_float [of "''7,5''" "Fin (15 / 2)"] n2
  have b: "to_float (Text ''7,5'') = Num (Fin (15 / 2))" by blast
  from C6_to_float [of "''7,5''" "Fin 3"]
  have c: "to_float (Text (replace '','' ''.'' ''7,5'')) = to_float (Text ''7,5'')" by blast
  from h m n1 a n2 b k c [unfolded r] show ?thesis by simp
qed

text \<open>
  Claim C10. When the loop over the missing rows completes, the single-price, tiered and
  on-request counters add up to the number of rows, the tier-quantity counter equals the
  tiered counter, and there is one import record for each row.
\<close>

theorem C10_counters_partition:
  assumes "process_rows initial_stats [] missing_articles = Inr (st, import_articles)"
  shows "single_price st + tiered_price st + auf_anfrage st = length missing_articles
       \<and> needs_tier_quantities st = tiered_price st
       \<and> length import_articles = length missing_articles"
  using process_rows_counts [OF assms] by (simp add: initial_stats_def)

text \<open>The theorem at two rows: one on request, one with a tier.\<close>

theorem C10_counters_partition_witness:
  "process_rows initial_stats []
     [\<lparr>Artikelnummer = ''A1'', Matchcode = ''Kiste'', Beschreibung = ''Holzkiste'',
       Preis_1 = Text ''Auf Anfrage'', Preis_2 = Missing, Preis_3 = Missing,
       Preis_4 = Missing, Einheit = ''nan''\<rparr>,
      \<lparr>Artikelnummer = ''A2'', Matchcode = ''Band'', Beschreibung = ''Klebeband'',
       Preis_1 = Number (Fin 10), Preis_2 = Number (Fin 15), Preis_3 = Number (Fin 15),
       Preis_4 = Number (Fin 0), Einheit = ''Rolle''\<rparr>]
   = Inr (\<lparr>single_price = 0, tiered_price = 1, auf_anfrage = 1, needs_tier_quantities = 1\<rparr>,
          [\<lparr>import_articleNumber = ''A1'', import_productName = ''Kiste'',
            description = ''Holzkiste'', currency = ''EUR'',
            sourceUrl = ''https://shop.firmenich.de'', category = ''FROM_EXCEL'',
            published = True, verified = True, ocrConfidence = 1,
            price = Some (Num (Fin 0)), tieredPricesText = Some ''Auf Anfrage'',
            tieredPrices = None, manufacturer = None, ean = None\<rparr>,
           \<lparr>import_articleNumber = ''A2'', import_productName = ''Band'',
            description = ''Klebeband'', currency = ''EUR'',
            sourceUrl = ''https://shop.firmenich.de'', category = ''FROM_EXCEL'',
            published = True, verified = False, ocrConfidence = 1,
            price = Some (Num (Fin 10)), tieredPricesText = None,
            tieredPrices = Some [\<lparr>quantity = None, tier_price = Num (Fin 15)\<rparr>],
            manufacturer = Some ''NEEDS_TIER_QUANTITIES'', ean = Some ''Rolle''\<rparr>])
   \<and> single_price \<lparr>single_price = 0, tiered_price = 1, auf_anfrage = 1, needs_tier_quantities = 1\<rparr>
       + tiered_price \<lparr>single_price = 0, tiered_price = 1, auf_anfrage = 1, needs_tier_quantities = 1\<rparr>
       + auf_anfrage \<lparr>single_price = 0, tiered_price = 1, auf_anfrage = 1, needs_tier_quantities = 1\<rparr>
       = (2::nat)"
proof -
  let ?rows = "[\<lparr>Artikelnummer = ''A1'', Matchcode = ''Kiste'', Beschreibung = ''Holzkiste'',
       Preis_1 = Text ''Auf Anfrage'', Preis_2 = Missing, Preis_3 = Missing,
       Preis_4 = Missing, Einheit = ''nan''\<rparr>,
      \<lparr>Artikelnummer = ''A2'', Matchcode = ''Band'', Beschreibung = ''Klebeband'',
       Preis_1 = Number (Fin 10), Preis_2 = Number (Fin 15), Preis_3 = Number (Fin 15),
       Preis_4 = Number (Fin 0), Einheit = ''Rolle''\<rparr>]"
  let ?st = "\<lparr>single_price = 0, tiered_price = 1, auf_anfrage = 1, needs_tier_quantities = 1\<rparr>"
  let ?arts = "[\<lparr>import_articleNumber = ''A1'', import_productName = ''Kiste'',
            description = ''Holzkiste'', currency = ''EUR'',
            sourceUrl = ''https://shop.firmenich.de'', category = ''FROM_EXCEL'',
            published = True, verified = True, ocrConfidence = 1,
            price = Some (Num (Fin 0)), tieredPricesText = Some ''Auf Anfrage'',
            tieredPrices = None, manufacturer = None, ean = None\<rparr>,
           \<lparr>import_articleNumber = ''A2'', import_productName = ''Band'',
            description = ''Klebeband'', currency = ''EUR'',
            sourceUrl = ''https://shop.firmenich.de'', category = ''FROM_EXCEL'',
            published = True, verified = False, ocrConfidence = 1,
            price = Some (Num (Fin 10)), tieredPricesText = None,
            tieredPrices = Some [\<lparr>quantity = None, tier_price = Num (Fin 15)\<rparr>],
            manufacturer = Some ''NEEDS_TIER_QUANTITIES'', ean = Some ''Rolle''\<rparr>]"
  have h: "process_rows initial_stats [] ?rows = Inr (?st, ?arts)" by code_simp
  from C10_counters_partition [OF h] have "single_price ?st + tiered_price ?st + auf_anfrage ?st = 2"
    by simp
  with h show ?thesis by (rule conjI)
qed

section \<open>Properties of the catalog fetch\<close>

lemma continues_cases:
  assumes "continues r"
  obtains d articles p where "r = Envelope d" "truthy (success d)" "data d = Present articles"
    "pagination d = Present p" "truthy (hasNext p)" "page_records r = articles"
proof (cases r)
  case (Envelope d)
  with assms obtain articles p where "data d = Present articles" "pagination d = Present p"
    "truthy (hasNext p)" "truthy (success d)"
    by (auto split: field.splits)
  with Envelope that show ?thesis by simp
qed (use assms in simp_all)

lemma unsuccessful_cases:
  assumes "unsuccessful r"
  obtains d where "r = Envelope d" "\<not> truthy (success d)"
  using assms by (cases r) simp_all

lemma fetch_correct_run:
  assumes "\<forall>k. p \<le> k \<and> k < n \<longrightarrow> continues (server k)"
    and "unsuccessful (server n)" and "p \<le> n"
  shows "fetch_correct server p acc
           = Some (Inr (acc @ concat (map (\<lambda>k. page_records (server k)) [p..<n])))"
  using assms
proof (induction "n - p" arbitrary: p acc)
  case 0
  then have "p = n" by simp
  from "0.prems"(2) obtain d where "server n = Envelope d" "\<not> truthy (success d)"
    by (rule unsuccessful_cases)
  then show ?case using \<open>p = n\<close> by (subst fetch_correct.simps) simp
next
  case (Suc m)
  then have lt: "p < n" by simp
  with Suc.prems(1) have "continues (server p)" by simp
  then obtain d articles pg where d: "server p = Envelope d" "truthy (success d)"
    "data d = Present articles" "pagination d = Present pg" "truthy (hasNext pg)"
    "page_records (server p) = articles"
    by (rule continues_cases)
  have step: "fetch_correct server p acc = fetch_correct server (p + 1) (acc @ articles)"
    using d by (subst fetch_correct.simps) simp
  have "fetch_correct server (p + 1) (acc @ articles)
      = Some (Inr ((acc @ articles) @ concat (map (\<lambda>k. page_records (server k)) [p + 1..<n])))"
  proof (rule Suc.hyps(1))
    show "m = n - (p + 1)" using Suc.hyps(2) by simp
    show "\<forall>k. p + 1 \<le> k \<and> k < n \<longrightarrow> continues (server k)" using Suc.prems(1) by simp
    show "unsuccessful (server n)" by (rule Suc.prems(2))
    show "p + 1 \<le> n" using lt by simp
  qed
  moreover have "[p..<n] = p # [p + 1..<n]" using lt by (simp add: upt_conv_Cons)
  ultimately show ?case using step d(6) by simp
qed

lemma fetch_prepare_run:
  assumes "\<forall>k. p \<le> k \<and> k < n \<longrightarrow> continues (server k) \<and> page_records (server k) \<noteq> []"
    and "unsuccessful (server n)" and "p \<le> n"
  shows "fetch_prepare server p acc
           = Some (Inr (acc @ concat (map (\<lambda>k. page_records (server k)) [p..<n])))"
  using assms
proof (induction "n - p" arbitrary: p acc)
  case 0
  then have "p = n" by simp
  from "0.prems"(2) obtain d where "server n = Envelope d" "\<not> truthy (success d)"
    by (rule unsuccessful_cases)
  then show ?case using \<open>p = n\<close> by (subst fetch_prepare.simps) simp
next
  case (Suc m)
  then have lt: "p < n" by simp
  with Suc.prems(1) have c: "continues (server p)" and ne: "page_records (server p) \<noteq> []"
    by simp_all
  from c obtain d articles pg where d: "server p = Envelope d" "truthy (success d)"
    "data d = Present articles" "pagination d = Present pg" "truthy (hasNext pg)"
    "page_records (server p) = articles"
    by (rule continues_cases)
  from ne d(6) have "articles \<noteq> []" by simp
  then have step: "fetch_prepare server p acc = fetch_prepare server (p + 1) (acc @ articles)"
    using d by (subst fetch_prepare.simps) simp
  have "fetch_prepare server (p + 1) (acc @ articles)
      = Some (Inr ((acc @ articles) @ concat (map (\<lambda>k. page_records (server k)) [p + 1..<n])))"
  proof (rule Suc.hyps(1))
    show "m = n - (p + 1)" using Suc.hyps(2) by simp
    show "\<forall>k. p + 1 \<le> k \<and> k < n \<longrightarrow> continues (server k) \<and> page_records (server k) \<noteq> []"
      using Suc.prems(1) by simp
    show "unsuccessful (server n)" by (rule Suc.prems(2))
    show "p + 1 \<le> n" using lt by simp
  qed
  moreover have "[p..<n] = p # [p + 1..<n]" using lt by (simp add: upt_conv_Cons)
  ultimately show ?case using step d(6) by simp
qed

section \<open>Claims about the catalog fetch\<close>

text \<open>
  Claim C7 says that a page with \<open>success\<close> false, or malformed in another way, ends the
  pagination without raising. A first page with a true \<open>success\<close>, one record and the
  value \<open>null\<close> for \<open>pagination\<close> makes both loops raise \<open>AttributeError\<close>: they call
  \<open>get\<close> on \<open>None\<close>.
\<close>

theorem C7_malformed_page_counterexample:
  "fetch_correct null_pagination 1 [] = Some (Inl AttributeError)
   \<and> fetch_prepare null_pagination 1 [] = Some (Inl AttributeError)"
proof -
  have "fetch_correct null_pagination 1 [] = Some (Inl AttributeError)"
    by (subst fetch_correct.simps) (simp add: null_pagination_def)
  moreover have "fetch_prepare null_pagination 1 [] = Some (Inl AttributeError)"
    by (subst fetch_prepare.simps) (simp add: null_pagination_def)
  ultimately show ?thesis by simp
qed

text \<open>
  Claim C7, as the scripts have it. When the pages before page \<open>n\<close> are successful pages
  that announce a next page, and the envelope of page \<open>n\<close> has a \<open>success\<close> that is
  absent, \<open>null\<close> or false, the loop of \<open>check-missing-correct.py\<close> returns exactly
  the records of the pages before \<open>n\<close>, in order, and does not raise; so does the loop of
  \<open>prepare-import-data.py\<close> when none of those pages is empty. The pages after \<open>n\<close> are
  not read: the result is the same whatever they are.
\<close>

theorem C7_unsuccessful_page_stops:
  assumes "\<forall>k. 1 \<le> k \<and> k < n \<longrightarrow> continues (server k)"
    and "unsuccessful (server n)" and "1 \<le> n"
  shows "fetch_correct server 1 []
           = Some (Inr (concat (map (\<lambda>k. page_records (server k)) [1..<n])))
     \<and> ((\<forall>k. 1 \<le> k \<and> k < n \<longrightarrow> page_records (server k) \<noteq> []) \<longrightarrow>
          fetch_prepare server 1 []
            = Some (Inr (concat (map (\<lambda>k. page_records (server k)) [1..<n]))))"
proof -
  have "fetch_correct server 1 []
           = Some (Inr ([] @ concat (map (\<lambda>k. page_records (server k)) [1..<n])))"
    using assms by (rule fetch_correct_run)
  moreover have "fetch_prepare server 1 []
            = Some (Inr ([] @ concat (map (\<lambda>k. page_records (server k)) [1..<n])))"
    if "\<forall>k. 1 \<le> k \<and> k < n \<longrightarrow> page_records (server k) \<noteq> []"
  proof (rule fetch_prepare_run)
    show "\<forall>k. 1 \<le> k \<and> k < n \<longrightarrow> continues (server k) \<and> page_records (server k) \<noteq> []"
      using assms(1) that by simp
  qed (use assms in simp_all)
  ultimately show ?thesis by simp
qed

text \<open>The theorem at a server whose third page has \<open>success\<close> false.\<close>

theorem C7_unsuccessful_page_stops_witness:
  "continues (three_pages 1) \<and> continues (three_pages 2) \<and> unsuccessful (three_pages 3)
   \<and> fetch_correct three_pages 1 []
       = Some (Inr [\<lparr>db_id = 1, articleNumber = Some ''A1'', productName = ''Kiste''\<rparr>,
                    \<lparr>db_id = 2, articleNumber = Some ''B2'', productName = ''Band''\<rparr>,
                    \<lparr>db_id = 3, articleNumber = Some ''C3'', productName = ''Folie''\<rparr>])
   \<and> fetch_prepare three_pages 1 []
       = Some (Inr [\<lparr>db_id = 1, articleNumber = Some ''A1'', productName = ''Kiste''\<rparr>,
                    \<lparr>db_id = 2, articleNumber = Some ''B2'', productName = ''Band''\<rparr>,
                    \<lparr>db_id = 3, articleNumber = Some ''C3'', productName = ''Folie''\<rparr>])"
proof -
  have k: "k = 1 \<or> k = 2" if "1 \<le> k \<and> k < 3" for k :: nat using that by arith
  have c1: "continues (three_pages 1)" by (simp add: three_pages_def)
  have c2: "continues (three_pages 2)" by (simp add: three_pages_def)
  have h1: "\<forall>k. 1 \<le> k \<and> k < 3 \<longrightarrow> continues (three_pages k)"
    using k c1 c2 by blast
  have h2: "unsuccessful (three_pages 3)" by (simp add: three_pages_def)
  have h3: "(1::nat) \<le> 3" by simp
  have n1: "page_records (three_pages 1) \<noteq> []" by (simp add: three_pages_def)
  have n2: "page_records (three_pages 2) \<noteq> []" by (simp add: three_pages_def)
  have h4: "\<forall>k. 1 \<le> k \<and> k < 3 \<longrightarrow> page_records (three_pages k) \<noteq> []"
    using k n1 n2 by blast
  have u: "[1..<3] = [1, 2::nat]" by (simp add: upt_rec)
  have r: "concat (map (\<lambda>k. page_records (three_pages k)) [1..<3])
      = [\<lparr>db_id = 1, articleNumber = Some ''A1'', productName = ''Kiste''\<rparr>,
         \<lparr>db_id = 2, articleNumber = Some ''B2'', productName = ''Band''\<rparr>,
         \<lparr>db_id = 3, articleNumber = Some ''C3'', productName = ''Folie''\<rparr>]"
    unfolding u by (simp add: three_pages_def)
  from C7_unsuccessful_page_stops [OF h1 h2 h3] h4 r c1 c2 h2
  show ?thesis by simp
qed

section \<open>Claims about the output\<close>

lemma sort_enumeration:
  fixes e1 e2 :: "string list"
  assumes "set e1 = set e2" and "distinct e1" and "distinct e2"
  shows "sort e1 = sort e2"
proof (rule sorted_distinct_set_unique)
  show "sorted (sort e1)" "sorted (sort e2)" by simp_all
  show "distinct (sort e1)" using assms(2) by simp
  show "distinct (sort e2)" using assms(3) by simp
  show "set (sort e1) = set (sort e2)" using assms(1) by simp
qed

text \<open>
  Claim C8 says that two runs on the same spreadsheet and the same catalog write the same
  bytes. The results of \<open>compare-excel-system.py\<close> and of \<open>prepare-import-data.py\<close>
  hold the time of the run, so two runs at different times differ; and
  \<open>mark-non-excel-articles.py\<close> writes the identifiers that the catalog lacks in the order
  in which Python enumerates a set, which is not the same in every run.
\<close>

theorem C8_timestamp_counterexample:
  "write_result_compare ''2025-01-01T10:00:00.000001'' [''A1''] {''A1''}
     \<noteq> write_result_compare ''2025-01-01T10:05:00.000002'' [''A1''] {''A1''}
   \<and> write_import_data ''2025-01-01T10:00:00.000001'' initial_stats []
     \<noteq> write_import_data ''2025-01-01T10:05:00.000002'' initial_stats []
   \<and> set [''A1'', ''B2''] = set [''B2'', ''A1'']
   \<and> only_in_excel [''A1'', ''B2''] {} \<noteq> only_in_excel [''B2'', ''A1''] {}"
  by (simp add: write_result_compare_def write_import_data_def only_in_excel_def insert_commute)

text \<open>
  Claim C8, as the scripts have it. The result of \<open>check-missing-correct.py\<close> is the same
  for every order in which the set of missing identifiers is enumerated: it holds counts and
  the sorted identifiers. The results of \<open>compare-excel-system.py\<close> and of
  \<open>prepare-import-data.py\<close> are the same in two runs except for their timestamp.
\<close>

theorem C8_same_output_twice:
  assumes "set enumeration1 = set enumeration2"
    and "distinct enumeration1" and "distinct enumeration2"
  shows "write_result_correct S C enumeration1 = write_result_correct S C enumeration2
     \<and> write_result_compare now1 excel_articles system_articles
         = (write_result_compare now2 excel_articles system_articles)\<lparr>timestamp := now1\<rparr>
     \<and> write_import_data now1 st import_articles
         = (write_import_data now2 st import_articles)\<lparr>import_timestamp := now1\<rparr>"
proof -
  have se: "sort enumeration1 = sort enumeration2" using assms by (rule sort_enumeration)
  have "write_result_correct S C enumeration1 = write_result_correct S C enumeration2"
    unfolding write_result_correct_def se ..
  moreover have "write_result_compare now1 excel_articles system_articles
         = (write_result_compare now2 excel_articles system_articles)\<lparr>timestamp := now1\<rparr>"
    by (simp add: write_result_compare_def case_prod_beta)
  moreover have "write_import_data now1 st import_articles
         = (write_import_data now2 st import_articles)\<lparr>import_timestamp := now1\<rparr>"
    by (simp add: write_import_data_def)
  ultimately show ?thesis by simp
qed

text \<open>The theorem at two enumerations of the missing identifiers A1 and B2.\<close>

lemma sort_B2_A1: "sort [''B2'', ''A1''] = [''A1'', ''B2'']" by code_simp
lemma sort_A1_B2: "sort [''A1'', ''B2''] = [''A1'', ''B2'']" by code_simp

theorem C8_same_output_twice_witness:
  "set [''B2'', ''A1''] = set [''A1'', ''B2''] \<and> distinct [''B2'', ''A1''] \<and> distinct [''A1'', ''B2'']
   \<and> write_result_correct {''A1'', ''B2'', ''C3''} {''C3''} [''B2'', ''A1'']
       = write_result_correct {''A1'', ''B2'', ''C3''} {''C3''} [''A1'', ''B2'']
   \<and> missingArticleNumbers (projr (write_result_correct {''A1'', ''B2'', ''C3''} {''C3''} [''B2'', ''A1'']))
       = [''A1'', ''B2'']"
proof -
  have h1: "set [''B2'', ''A1''] = set [''A1'', ''B2'']" by (simp add: insert_commute)
  have h2: "distinct [''B2'', ''A1'']" by simp
  have h3: "distinct [''A1'', ''B2'']" by simp
  have c: "card {''A1'', ''B2'', ''C3''} \<noteq> 0" by simp
  have v: "missingArticleNumbers (projr (write_result_correct {''A1'', ''B2'', ''C3''} {''C3''} [''B2'', ''A1'']))
       = [''A1'', ''B2'']"
    using c by (simp add: write_result_correct_def coverage_correct_def sort_B2_A1)
  from C8_same_output_twice [OF h1 h2 h3, of "{''A1'', ''B2'', ''C3''}" "{''C3''}"]
  have "write_result_correct {''A1'', ''B2'', ''C3''} {''C3''} [''B2'', ''A1'']
       = write_result_correct {''A1'', ''B2'', ''C3''} {''C3''} [''A1'', ''B2'']"
    by (rule conjunct1)
  with h1 h2 h3 v show ?thesis by blast
qed

end
